theory Spec2Isabelle
  imports Main "HOL-Library.Word"
begin

unbundle bit_operations_syntax

section \<open>The dropdown widget of OpenTTD (src/widgets/dropdown.cpp)\<close>

text \<open>
  A shallow embedding of the drop-down menu window: the item list, the placement
  computed by \<^verbatim>\<open>ShowDropDownListAt\<close>, the window \<^verbatim>\<open>DropdownWindow\<close> with its event
  handlers, and the menu builder \<^verbatim>\<open>ShowDropDownMenu\<close>.

  Machine integers: \<^verbatim>\<open>uint\<close> is a 32-bit word (arithmetic wraps), \<^verbatim>\<open>byte\<close> an 8-bit
  word, \<^verbatim>\<open>size_t\<close> a 64-bit word. A C++ \<^verbatim>\<open>int\<close> is a HOL \<open>int\<close>: signed overflow is
  undefined in C++, so the model follows the source on every \<^verbatim>\<open>int\<close> computation that
  stays in range. A conversion from \<^verbatim>\<open>int\<close> to \<^verbatim>\<open>uint\<close> is \<open>word_of_int\<close>, the
  conversion back is \<open>sint\<close>.

  Drawing (\<^verbatim>\<open>Draw\<close>, \<^verbatim>\<open>DrawWidget\<close>), the widget tree and the display flags of the
  parent's button are the host framework's and are left out; so is
  \<^verbatim>\<open>CloseWindowByClass\<close>, which acts on other windows.
\<close>

subsection \<open>Data\<close>

type_synonym uint = "32 word"
type_synonym byte = "8 word"
type_synonym size_t = "64 word"
type_synonym StringID = "32 word"
type_synonym Colours = nat

record Point =
  pt_x :: int
  pt_y :: int

record Rect =
  r_left :: int
  r_top :: int
  r_right :: int
  r_bottom :: int

record Dimension =
  d_width :: uint
  d_height :: uint

text \<open>
  \<^verbatim>\<open>Rect::Width()\<close> is declared outside this file; it is the inverse of the assignments
  \<^verbatim>\<open>wi_rect.right = wi_rect.left + ScaleGUITrad(width) - 1\<close> of \<^verbatim>\<open>ShowDropDownList\<close>.
\<close>

definition Rect_Width :: "Rect \<Rightarrow> int" where
  "Rect_Width r = r_right r - r_left r + 1"

text \<open>
  A row of the list. \<^verbatim>\<open>DropDownListItem\<close> is a class with the fields \<^verbatim>\<open>result\<close> and
  \<^verbatim>\<open>masked\<close> and the virtual methods \<^verbatim>\<open>Selectable()\<close>, \<^verbatim>\<open>Height()\<close> and \<^verbatim>\<open>Width()\<close>,
  which every subclass may override. An item of the model carries what its methods
  return; they are constant over the item's life. \<open>String\<close> is the text of a
  \<^verbatim>\<open>DropDownListStringItem\<close> (the empty string for a bare item).
\<close>

record DropDownListItem =
  result :: int
  masked :: bool
  Selectable :: bool
  Height :: uint
  Width :: uint
  String :: string

type_synonym DropDownList = "DropDownListItem list"

text \<open>
  What the file reads from the rest of the program: the main viewport, the scaled
  widget dimensions, the text direction, the string table. Each field is named after
  the expression of the source it stands for.
\<close>

record Env =
  GetMainViewTop :: int
  GetMainViewBottom :: int
  fullbevel_top :: int              \<comment> \<open>\<^verbatim>\<open>WidgetDimensions::scaled.fullbevel.top\<close>\<close>
  fullbevel_Vertical :: uint        \<comment> \<open>\<^verbatim>\<open>WidgetDimensions::scaled.fullbevel.Vertical()\<close>\<close>
  fullbevel_Horizontal :: uint      \<comment> \<open>\<^verbatim>\<open>WidgetDimensions::scaled.fullbevel.Horizontal()\<close>\<close>
  dropdowntext_Horizontal :: uint   \<comment> \<open>\<^verbatim>\<open>WidgetDimensions::scaled.dropdowntext.Horizontal()\<close>\<close>
  scrollbar_width :: uint           \<comment> \<open>\<^verbatim>\<open>NWidgetScrollbar::GetVerticalDimension().width\<close>\<close>
  text_dir_rtl :: bool              \<comment> \<open>\<^verbatim>\<open>_current_text_dir == TD_RTL\<close>\<close>
  ScaleGUITrad :: "int \<Rightarrow> int"
  INVALID_STRING_ID :: StringID
  GetString :: "StringID \<Rightarrow> string"
  GetStringBoundingBox_width :: "string \<Rightarrow> uint"
  StringItem_Height :: uint         \<comment> \<open>\<^verbatim>\<open>Height()\<close> of a \<^verbatim>\<open>DropDownListStringItem\<close>\<close>
  StringItem_Selectable :: bool     \<comment> \<open>\<^verbatim>\<open>Selectable()\<close> of a \<^verbatim>\<open>DropDownListStringItem\<close>\<close>
  WID_DM_ITEMS :: int               \<comment> \<open>the number of the panel that shows the rows\<close>
  default_instant_close :: bool     \<comment> \<open>the default argument of \<^verbatim>\<open>ShowDropDownList\<close>\<close>

text \<open>The parent window: its position and the rectangle and colour of its widgets.\<close>

record Window =
  w_left :: int
  w_top :: int
  widget_rect :: "int \<Rightarrow> Rect"       \<comment> \<open>\<^verbatim>\<open>GetWidget<NWidgetCore>(button)->GetCurrentRect()\<close>\<close>
  widget_colour :: "int \<Rightarrow> Colours"  \<comment> \<open>\<^verbatim>\<open>GetWidget<NWidgetCore>(button)->colour\<close>\<close>

text \<open>A failed \<^verbatim>\<open>assert\<close> aborts the program; so does an integer division by zero.\<close>

datatype error = AssertionFailed | DivisionByZero | OutOfBounds

subsection \<open>The natural size of a list\<close>

fun GetDropDownListDimension_loop :: "Dimension \<Rightarrow> DropDownList \<Rightarrow> Dimension" where
  "GetDropDownListDimension_loop dim [] = dim"
| "GetDropDownListDimension_loop dim (item # rest) =
     GetDropDownListDimension_loop
       (dim\<lparr>d_height := d_height dim + Height item,
            d_width := max (d_width dim) (Width item)\<rparr>) rest"

definition GetDropDownListDimension :: "DropDownList \<Rightarrow> Dimension" where
  "GetDropDownListDimension list =
     GetDropDownListDimension_loop \<lparr>d_width = 0, d_height = 0\<rparr> list"

subsection \<open>Placement (\<^verbatim>\<open>ShowDropDownListAt\<close>, up to the construction of the window)\<close>

text \<open>
  The local variables of \<^verbatim>\<open>ShowDropDownListAt\<close> when it constructs the window:
  \<^verbatim>\<open>top\<close>, \<^verbatim>\<open>width\<close>, \<^verbatim>\<open>dim\<close>, \<^verbatim>\<open>scroll\<close>, \<^verbatim>\<open>above\<close>, \<^verbatim>\<open>available_height\<close> and \<^verbatim>\<open>dw_pos\<close>.
\<close>

record Placement =
  pl_top :: int
  pl_width :: uint
  pl_dim :: Dimension
  pl_scroll :: bool
  pl_above :: bool
  pl_available_height :: uint
  pl_dw_pos :: Point

text \<open>The available height below the calling widget (line 385).\<close>

definition available_height_below :: "Env \<Rightarrow> Window \<Rightarrow> Rect \<Rightarrow> uint" where
  "available_height_below env w wi_rect =
     word_of_int (max (GetMainViewBottom env - (w_top w + r_bottom wi_rect + 1)
                        - sint (fullbevel_Vertical env) * 2) 0)"

text \<open>The available height above the calling widget (line 390).\<close>

definition available_height_above :: "Env \<Rightarrow> Window \<Rightarrow> Rect \<Rightarrow> uint" where
  "available_height_above env w wi_rect =
     word_of_int (max (w_top w + r_top wi_rect - GetMainViewTop env
                        - sint (fullbevel_Vertical env) * 2) 0)"

text \<open>
  Lines 411 to 419: the top of a list placed above the widget is computed in unsigned
  arithmetic and converted back; then the final width and the position.
\<close>

definition placement_finish ::
  "Env \<Rightarrow> Window \<Rightarrow> Rect \<Rightarrow> int \<Rightarrow> uint \<Rightarrow> bool \<Rightarrow> bool \<Rightarrow> uint \<Rightarrow> Dimension \<Rightarrow> Placement" where
  "placement_finish env w wi_rect top0 width place_above scroll available_height dim =
     (let top1 = (if place_above
                  then sint (word_of_int (w_top w + r_top wi_rect) - d_height dim
                             - fullbevel_Vertical env * 2)
                  else top0);
          dim' = dim\<lparr>d_width := max width (d_width dim)\<rparr>;
          dw_pos = \<lparr>pt_x = w_left w + (if text_dir_rtl env
                                        then r_right wi_rect + 1 - sint width
                                        else r_left wi_rect),
                    pt_y = top1\<rparr>
      in \<lparr>pl_top = top1, pl_width = width, pl_dim = dim', pl_scroll = scroll,
          pl_above = place_above, pl_available_height = available_height, pl_dw_pos = dw_pos\<rparr>)"

definition ShowDropDownListAt_placement ::
  "Env \<Rightarrow> Window \<Rightarrow> DropDownList \<Rightarrow> Rect \<Rightarrow> error + Placement" where
  "ShowDropDownListAt_placement env w list wi_rect =
     (let top0 = w_top w + r_bottom wi_rect + 1;
          width = (word_of_int (Rect_Width wi_rect) :: uint);
          dim0 = GetDropDownListDimension list;
          dim = dim0\<lparr>d_width := d_width dim0 + fullbevel_Horizontal env\<rparr>;
          available_height = available_height_below env w wi_rect
      in if d_height dim > available_height then
           (let height_above = available_height_above env w wi_rect;
                place_above = (height_above > available_height);
                available_height = (if place_above then height_above else available_height)
            in if d_height dim > available_height then
                 (if (word_of_nat (length list) :: uint) = 0 then Inl DivisionByZero
                  else let avg_height = d_height dim div word_of_nat (length list)
                       in if avg_height = 0 then Inl DivisionByZero
                          else let rows = max (available_height div avg_height) 1;
                                   dim = dim\<lparr>d_height := rows * avg_height,
                                             d_width := d_width dim + scrollbar_width env\<rparr>
                               in Inr (placement_finish env w wi_rect top0 width place_above True
                                         available_height dim))
               else Inr (placement_finish env w wi_rect top0 width place_above False
                           available_height dim))
         else Inr (placement_finish env w wi_rect top0 width False False available_height dim))"

subsection \<open>The scrollbar\<close>

text \<open>
  Modelled from the spec: the class \<^verbatim>\<open>Scrollbar\<close> of the host framework is not part of
  this file. The spec describes a scroll offset that is the index of the first visible
  row, a capacity that is the number of rows visible at once, fixed at construction, and
  a maximal offset, the last page. The offset starts at zero; an update shifts it by the
  difference given and keeps it between zero and the last page, and tells whether it
  changed.
\<close>

record Scrollbar =
  sb_count :: int
  sb_cap :: int
  sb_pos :: int

definition Scrollbar_last_page :: "Scrollbar \<Rightarrow> int" where
  "Scrollbar_last_page sb = max (sb_count sb - sb_cap sb) 0"

definition Scrollbar_clamp :: "Scrollbar \<Rightarrow> int \<Rightarrow> int" where
  "Scrollbar_clamp sb p = max 0 (min p (Scrollbar_last_page sb))"

definition Scrollbar_new :: Scrollbar where
  "Scrollbar_new = \<lparr>sb_count = 0, sb_cap = 0, sb_pos = 0\<rparr>"

definition SetCapacity :: "int \<Rightarrow> Scrollbar \<Rightarrow> Scrollbar" where
  "SetCapacity capacity sb =
     (let sb' = sb\<lparr>sb_cap := capacity\<rparr> in sb'\<lparr>sb_pos := Scrollbar_clamp sb' (sb_pos sb')\<rparr>)"

definition SetCount :: "int \<Rightarrow> Scrollbar \<Rightarrow> Scrollbar" where
  "SetCount num sb =
     (let sb' = sb\<lparr>sb_count := num\<rparr> in sb'\<lparr>sb_pos := Scrollbar_clamp sb' (sb_pos sb')\<rparr>)"

definition GetPosition :: "Scrollbar \<Rightarrow> int" where
  "GetPosition sb = sb_pos sb"

definition UpdatePosition :: "int \<Rightarrow> Scrollbar \<Rightarrow> bool \<times> Scrollbar" where
  "UpdatePosition difference sb =
     (if difference = 0 then (False, sb)
      else let p = Scrollbar_clamp sb (sb_pos sb + difference)
           in (p \<noteq> sb_pos sb, sb\<lparr>sb_pos := p\<rparr>))"

definition INT_MAX :: int where
  "INT_MAX = 2147483647"

subsection \<open>The window\<close>

text \<open>
  The fields of \<^verbatim>\<open>struct DropdownWindow\<close>. \<open>dw_closed\<close> records that \<^verbatim>\<open>Window::Close\<close> has
  run, \<open>dw_dirty\<close> that \<^verbatim>\<open>SetDirty\<close> has; \<open>items_minimal_size\<close>, \<open>items_colour\<close> and
  \<open>show_scroll\<close> are what the constructor hands to the nested widgets.
\<close>

record DropdownWindow =
  parent :: Window
  parent_button :: int
  dd_list :: DropDownList
  selected_index :: int
  click_delay :: byte
  drag_mode :: bool
  instant_close :: bool
  scrolling :: int
  position :: Point
  vscroll :: Scrollbar
  items_minimal_size :: Dimension
  items_colour :: Colours
  show_scroll :: bool
  dw_closed :: bool
  dw_dirty :: bool

text \<open>The calls a dropdown makes on its parent window.\<close>

datatype callback =
    OnDropdownClose Point int int bool   \<comment> \<open>pt, widget, index, instant_close\<close>
  | OnDropdownSelect int int             \<comment> \<open>widget, index\<close>

text \<open>
  What an event handler reads from outside the window's own fields: the cursor, the
  mouse button, the window's rectangle as the framework laid it out, the top of the
  rectangle \<^verbatim>\<open>r\<close> of \<^verbatim>\<open>GetDropDownItem\<close> and the widget that \<^verbatim>\<open>GetWidgetFromPos\<close> finds
  under the cursor (negative when there is none).
\<close>

record Frame =
  cursor_pos :: Point
  left_button_clicked :: bool
  this_left :: int
  this_top :: int
  this_height :: int
  items_rect_top :: int
  GetWidgetFromPos :: int

text \<open>
  The constructor. The loop of lines 170 to 173 adds the heights up in an \<^verbatim>\<open>int\<close>, and
  the capacity is computed in \<^verbatim>\<open>size_t\<close>. The constructor does not assign \<^verbatim>\<open>scrolling\<close>;
  the model starts it at 0, no scrolling pending.
\<close>

definition list_height_loop :: "DropDownList \<Rightarrow> uint" where
  "list_height_loop list = fold (\<lambda>item list_height. list_height + Height item) list 0"

definition DropdownWindow_new ::
  "Env \<Rightarrow> Window \<Rightarrow> DropDownList \<Rightarrow> int \<Rightarrow> int \<Rightarrow> bool \<Rightarrow> Point \<Rightarrow> Dimension \<Rightarrow> Colours \<Rightarrow> bool
   \<Rightarrow> error + DropdownWindow" where
  "DropdownWindow_new env parent_w list selected button inst pos dsize wi_colour scroll =
     (if list = [] then Inl AssertionFailed
      else let items_width = d_width dsize - (if scroll then scrollbar_width env else 0);
               list_height = list_height_loop list
           in if list_height = 0 then Inl DivisionByZero
              else let capacity = ((ucast (d_height dsize) * word_of_nat (length list) :: size_t)
                                     div scast list_height)
                   in Inr \<lparr>parent = parent_w,
                           parent_button = button,
                           dd_list = list,
                           selected_index = selected,
                           click_delay = 0,
                           drag_mode = True,
                           instant_close = inst,
                           scrolling = 0,
                           position = pos,
                           vscroll = SetCount (int (length list))
                                       (SetCapacity (uint capacity) Scrollbar_new),
                           items_minimal_size =
                             \<lparr>d_width = items_width,
                              d_height = d_height dsize + fullbevel_Vertical env * 2\<rparr>,
                           items_colour = wi_colour,
                           show_scroll = scroll,
                           dw_closed = False,
                           dw_dirty = False\<rparr>)"

definition ShowDropDownListAt ::
  "Env \<Rightarrow> Window \<Rightarrow> DropDownList \<Rightarrow> int \<Rightarrow> int \<Rightarrow> Rect \<Rightarrow> Colours \<Rightarrow> bool
   \<Rightarrow> error + DropdownWindow" where
  "ShowDropDownListAt env w list selected button wi_rect wi_colour inst =
     (case ShowDropDownListAt_placement env w list wi_rect of
        Inl e \<Rightarrow> Inl e
      | Inr p \<Rightarrow>
          (case DropdownWindow_new env w list selected button inst (pl_dw_pos p) (pl_dim p)
                  wi_colour (pl_scroll p) of
             Inl e \<Rightarrow> Inl e
           | Inr dropdown \<Rightarrow>
               Inr (if pl_above p \<and> pl_scroll p
                    then dropdown\<lparr>vscroll := snd (UpdatePosition INT_MAX (vscroll dropdown))\<rparr>
                    else dropdown)))"

subsection \<open>Closing\<close>

definition Close :: "Frame \<Rightarrow> DropdownWindow \<Rightarrow> DropdownWindow \<times> callback list" where
  "Close fr d =
     (let pt = \<lparr>pt_x = pt_x (cursor_pos fr) - w_left (parent d),
                pt_y = pt_y (cursor_pos fr) - w_top (parent d)\<rparr>
      in (d\<lparr>dw_closed := True\<rparr>,
          [OnDropdownClose pt (parent_button d) (selected_index d) (instant_close d)]))"

definition OnFocusLost :: "Frame \<Rightarrow> bool \<Rightarrow> DropdownWindow \<Rightarrow> DropdownWindow \<times> callback list" where
  "OnFocusLost fr closing d =
     (if \<not> closing then Close fr (d\<lparr>instant_close := False\<rparr>) else (d, []))"

subsection \<open>Finding the row under the cursor\<close>

fun GetDropDownItem_loop :: "int \<Rightarrow> int \<Rightarrow> DropDownList \<Rightarrow> int option" where
  "GetDropDownItem_loop y pos [] = None"
| "GetDropDownItem_loop y pos (item # rest) =
     (if pos - 1 \<ge> 0 then GetDropDownItem_loop y (pos - 1) rest
      else let item_height = sint (Height item)
           in if y < item_height
              then (if masked item \<or> \<not> Selectable item then None else Some (result item))
              else GetDropDownItem_loop (y - item_height) (pos - 1) rest)"

text \<open>Line 226: the cursor's \<^verbatim>\<open>y\<close> relative to the top of the first row shown.\<close>

definition GetDropDownItem_y :: "Env \<Rightarrow> Frame \<Rightarrow> int" where
  "GetDropDownItem_y env fr =
     pt_y (cursor_pos fr) - this_top fr - items_rect_top fr - fullbevel_top env"

definition GetDropDownItem :: "Env \<Rightarrow> Frame \<Rightarrow> DropdownWindow \<Rightarrow> int option" where
  "GetDropDownItem env fr d =
     (if GetWidgetFromPos fr < 0 then None
      else let y = GetDropDownItem_y env fr;
               pos = GetPosition (vscroll d)
           in GetDropDownItem_loop y pos (dd_list d))"

text \<open>
  The row bands, in the words of the spec: with the first \<open>scroll_offset\<close> rows skipped,
  row \<open>k\<close> starts at the sum of the heights of the rows from \<open>scroll_offset\<close> up to \<open>k\<close>,
  row \<open>k\<close> excluded, and ends at that sum with row \<open>k\<close> included; a pointer at \<open>y\<close> falls
  within the band of row \<open>k\<close> when \<open>y\<close> is at or after its start and before its end
  (\<open>in_row_band\<close>). The loop of \<^verbatim>\<open>GetDropDownItem\<close> compares \<open>y\<close> with the end of a row only:
  \<open>row_under\<close> is the first row that ends beyond \<open>y\<close>, which for a pointer above the first
  row shown, at a negative \<open>y\<close>, is that first row.
\<close>

definition band_end :: "DropDownList \<Rightarrow> nat \<Rightarrow> nat \<Rightarrow> int" where
  "band_end list scroll_offset k =
     sum_list (map (\<lambda>item. sint (Height item))
                 (take (Suc k - scroll_offset) (drop scroll_offset list)))"

definition row_under :: "int \<Rightarrow> nat \<Rightarrow> DropDownList \<Rightarrow> nat \<Rightarrow> bool" where
  "row_under y scroll_offset list k \<longleftrightarrow>
     scroll_offset \<le> k \<and> k < length list \<and> y < band_end list scroll_offset k
     \<and> (\<forall>j\<in>{scroll_offset..<k}. band_end list scroll_offset j \<le> y)"

text \<open>The start of the band of row \<open>k\<close>, and the band itself.\<close>

definition band_start :: "DropDownList \<Rightarrow> nat \<Rightarrow> nat \<Rightarrow> int" where
  "band_start list scroll_offset k =
     sum_list (map (\<lambda>item. sint (Height item))
                 (take (k - scroll_offset) (drop scroll_offset list)))"

definition in_row_band :: "int \<Rightarrow> nat \<Rightarrow> DropDownList \<Rightarrow> nat \<Rightarrow> bool" where
  "in_row_band y scroll_offset list k \<longleftrightarrow>
     scroll_offset \<le> k \<and> k < length list
     \<and> band_start list scroll_offset k \<le> y \<and> y < band_end list scroll_offset k"

subsection \<open>The event handlers\<close>

definition OnClick :: "Env \<Rightarrow> Frame \<Rightarrow> int \<Rightarrow> DropdownWindow \<Rightarrow> DropdownWindow" where
  "OnClick env fr widget d =
     (if widget \<noteq> WID_DM_ITEMS env then d
      else case GetDropDownItem env fr d of
             Some item \<Rightarrow> d\<lparr>click_delay := 4, selected_index := item, dw_dirty := True\<rparr>
           | None \<Rightarrow> d)"

text \<open>The interval timer \<^verbatim>\<open>scroll_interval\<close>.\<close>

definition scroll_interval :: "DropdownWindow \<Rightarrow> DropdownWindow" where
  "scroll_interval d =
     (if scrolling d = 0 then d
      else let (changed, sb) = UpdatePosition (scrolling d) (vscroll d)
           in d\<lparr>vscroll := sb, dw_dirty := (dw_dirty d \<or> changed), scrolling := 0\<rparr>)"

text \<open>Lines 330 to 333 of \<^verbatim>\<open>OnMouseLoop\<close>.\<close>

definition select_item :: "int \<Rightarrow> DropdownWindow \<Rightarrow> DropdownWindow" where
  "select_item item d =
     (if selected_index d \<noteq> item then d\<lparr>selected_index := item, dw_dirty := True\<rparr> else d)"

text \<open>
  Lines 306 to 334 of \<^verbatim>\<open>OnMouseLoop\<close>: the pointer while the button that opened the list
  is still held, and its release.
\<close>

definition OnMouseLoop_drag ::
  "Env \<Rightarrow> Frame \<Rightarrow> DropdownWindow \<Rightarrow> DropdownWindow \<times> callback list" where
  "OnMouseLoop_drag env fr d =
     (if drag_mode d then
        (if \<not> left_button_clicked fr then
           (let d = d\<lparr>drag_mode := False\<rparr>
            in case GetDropDownItem env fr d of
                 None \<Rightarrow> (if instant_close d then Close fr d else (d, []))
               | Some item \<Rightarrow> (select_item item (d\<lparr>click_delay := 2\<rparr>), []))
         else if pt_y (cursor_pos fr) \<le> this_top fr + 2 then (d\<lparr>scrolling := - 1\<rparr>, [])
         else if pt_y (cursor_pos fr) \<ge> this_top fr + this_height fr - 2
              then (d\<lparr>scrolling := 1\<rparr>, [])
         else (case GetDropDownItem env fr d of
                 None \<Rightarrow> (d, [])
               | Some item \<Rightarrow> (select_item item d, [])))
      else (d, []))"

text \<open>
  \<^verbatim>\<open>OnMouseLoop\<close>: lines 298 to 304 count the close delay down and, when it reaches
  zero, close the window and report the selection; otherwise the pointer is followed.
\<close>

definition OnMouseLoop :: "Env \<Rightarrow> Frame \<Rightarrow> DropdownWindow \<Rightarrow> DropdownWindow \<times> callback list" where
  "OnMouseLoop env fr d0 =
     (let d = (if click_delay d0 \<noteq> 0 then d0\<lparr>click_delay := click_delay d0 - 1\<rparr> else d0)
      in if click_delay d0 \<noteq> 0 \<and> click_delay d = 0 then
           (let (d', cbs) = Close fr d
            in (d', cbs @ [OnDropdownSelect (parent_button d') (selected_index d')]))
         else OnMouseLoop_drag env fr d)"

text \<open>The mouse loop run once per frame, over the frames given; the callbacks in order.\<close>

fun mouse_loops :: "Env \<Rightarrow> Frame list \<Rightarrow> DropdownWindow \<Rightarrow> DropdownWindow \<times> callback list" where
  "mouse_loops env [] d = (d, [])"
| "mouse_loops env (fr # frs) d =
     (let (d', cbs) = OnMouseLoop env fr d;
          (d'', cbs') = mouse_loops env frs d'
      in (d'', cbs @ cbs'))"

subsection \<open>The menu builder\<close>

text \<open>
  Modelled from the spec: \<^verbatim>\<open>HasBit\<close> is declared outside this file. An entry is hidden or
  disabled when its bit is set in the mask; a mask has the bits 0 to 31.
\<close>

definition HasBit :: "uint \<Rightarrow> uint \<Rightarrow> bool" where
  "HasBit x y = bit x (unat y)"

text \<open>
  The constructor \<^verbatim>\<open>DropDownListStringItem(StringID string, int result, bool masked)\<close> and
  \<^verbatim>\<open>DropDownListStringItem::Width()\<close>.
\<close>

definition DropDownListStringItem :: "Env \<Rightarrow> StringID \<Rightarrow> int \<Rightarrow> bool \<Rightarrow> DropDownListItem" where
  "DropDownListStringItem env str res msk =
     \<lparr>result = res, masked = msk,
      Selectable = StringItem_Selectable env,
      Height = StringItem_Height env,
      Width = GetStringBoundingBox_width env (GetString env str) + dropdowntext_Horizontal env,
      String = GetString env str\<rparr>"

text \<open>
  The loop of \<^verbatim>\<open>ShowDropDownMenu\<close>. The fourth argument is the array from \<^verbatim>\<open>strings[i]\<close>
  on; an array without the terminator \<^verbatim>\<open>INVALID_STRING_ID\<close> is read past its end.
\<close>

fun ShowDropDownMenu_loop ::
  "Env \<Rightarrow> uint \<Rightarrow> uint \<Rightarrow> StringID list \<Rightarrow> uint \<Rightarrow> DropDownList \<Rightarrow> error + DropDownList" where
  "ShowDropDownMenu_loop env disabled_mask hidden_mask [] i list = Inl OutOfBounds"
| "ShowDropDownMenu_loop env disabled_mask hidden_mask (s # strings) i list =
     (if s = INVALID_STRING_ID env then Inr list
      else ShowDropDownMenu_loop env disabled_mask hidden_mask strings (i + 1)
             (if \<not> HasBit hidden_mask i
              then list @ [DropDownListStringItem env s (sint i) (HasBit disabled_mask i)]
              else list))"

definition ShowDropDownList ::
  "Env \<Rightarrow> Window \<Rightarrow> DropDownList \<Rightarrow> int \<Rightarrow> int \<Rightarrow> uint \<Rightarrow> bool \<Rightarrow> error + DropdownWindow" where
  "ShowDropDownList env w list selected button width inst =
     (let wi_rect = widget_rect w button;
          wi_colour = widget_colour w button;
          wi_rect = (if width \<noteq> 0
                     then (if text_dir_rtl env
                           then wi_rect\<lparr>r_left := r_right wi_rect + 1 - ScaleGUITrad env (sint width)\<rparr>
                           else wi_rect\<lparr>r_right := r_left wi_rect + ScaleGUITrad env (sint width) - 1\<rparr>)
                     else wi_rect)
      in ShowDropDownListAt env w list selected button wi_rect wi_colour inst)"

text \<open>\<open>Inr None\<close>: the call returns and no window was made.\<close>

definition ShowDropDownMenu ::
  "Env \<Rightarrow> Window \<Rightarrow> StringID list \<Rightarrow> int \<Rightarrow> int \<Rightarrow> uint \<Rightarrow> uint \<Rightarrow> uint
   \<Rightarrow> error + DropdownWindow option" where
  "ShowDropDownMenu env w strings selected button disabled_mask hidden_mask width =
     (case ShowDropDownMenu_loop env disabled_mask hidden_mask strings 0 [] of
        Inl e \<Rightarrow> Inl e
      | Inr list \<Rightarrow>
          (if list \<noteq> []
           then (case ShowDropDownList env w list selected button width (default_instant_close env) of
                   Inl e \<Rightarrow> Inl e
                 | Inr dropdown \<Rightarrow> Inr (Some dropdown))
           else Inr None))"

subsection \<open>Concrete inputs\<close>

text \<open>
  A main viewport from 0 to 100, bevels of one pixel, and a parent window at the origin
  whose button occupies the lines 40 to 51: 44 pixels are available below the button, 36
  above it.
\<close>

definition env0 :: Env where
  "env0 = \<lparr>GetMainViewTop = 0, GetMainViewBottom = 100, fullbevel_top = 1,
           fullbevel_Vertical = 2, fullbevel_Horizontal = 2, dropdowntext_Horizontal = 4,
           scrollbar_width = 12, text_dir_rtl = False, ScaleGUITrad = (\<lambda>n. n),
           INVALID_STRING_ID = 65535, GetString = (\<lambda>s. ''text''),
           GetStringBoundingBox_width = (\<lambda>s. word_of_nat (6 * length s)),
           StringItem_Height = 10, StringItem_Selectable = True, WID_DM_ITEMS = 0,
           default_instant_close = False\<rparr>"

definition w0 :: Window where
  "w0 = \<lparr>w_left = 0, w_top = 0,
          widget_rect = (\<lambda>n. \<lparr>r_left = 10, r_top = 40, r_right = 109, r_bottom = 51\<rparr>),
          widget_colour = (\<lambda>n. 0)\<rparr>"

text \<open>A selectable, unmasked row with the result and the height given.\<close>

definition row :: "int \<Rightarrow> uint \<Rightarrow> DropDownListItem" where
  "row res h = \<lparr>result = res, masked = False, Selectable = True, Height = h, Width = 60,
                String = ''row''\<rparr>"

text \<open>
  An open dropdown of three rows with the heights 10, 20 and 5 and the results 100, 101
  and 102, dropped from button 7 with row 101 preselected and \<^verbatim>\<open>instant_close\<close> set,
  and a frame with the cursor at the line \<open>cy\<close> of the screen: the first row starts at
  line 54.
\<close>

definition dropdown0 :: DropdownWindow where
  "dropdown0 = \<lparr>parent = w0, parent_button = 7,
                 dd_list = [row 100 10, row 101 20, row 102 5],
                 selected_index = 101, click_delay = 0, drag_mode = True,
                 instant_close = True, scrolling = 0,
                 position = \<lparr>pt_x = 10, pt_y = 52\<rparr>,
                 vscroll = \<lparr>sb_count = 3, sb_cap = 3, sb_pos = 0\<rparr>,
                 items_minimal_size = \<lparr>d_width = 100, d_height = 39\<rparr>,
                 items_colour = 0, show_scroll = False,
                 dw_closed = False, dw_dirty = False\<rparr>"

definition frame0 :: "int \<Rightarrow> bool \<Rightarrow> int \<Rightarrow> Frame" where
  "frame0 cy pressed widget =
     \<lparr>cursor_pos = \<lparr>pt_x = 20, pt_y = cy\<rparr>, left_button_clicked = pressed,
      this_left = 10, this_top = 52, this_height = 39, items_rect_top = 1,
      GetWidgetFromPos = widget\<rparr>"

section \<open>Properties\<close>

subsection \<open>The natural height\<close>

lemma GetDropDownListDimension_loop_height:
  "d_height (GetDropDownListDimension_loop dim list) = d_height dim + sum_list (map Height list)"
  by (induction list arbitrary: dim) (simp_all add: add.assoc)

lemma natural_height:
  "d_height (GetDropDownListDimension list) = sum_list (map Height list)"
  by (simp add: GetDropDownListDimension_def GetDropDownListDimension_loop_height)

lemma unat_sum_heights:
  "sum_list (map (\<lambda>item. unat (Height item)) list) < 2 ^ 32 \<Longrightarrow>
   unat (sum_list (map Height list)) = sum_list (map (\<lambda>item. unat (Height item)) list)"
proof (induction list)
  case Nil
  then show ?case by simp
next
  case (Cons item list)
  then have tl: "unat (sum_list (map Height list)) = sum_list (map (\<lambda>item. unat (Height item)) list)"
    by simp
  have "unat (Height item) + unat (sum_list (map Height list)) < 2 ^ LENGTH(32)"
    using Cons.prems by (simp add: tl)
  then have "unat (Height item + sum_list (map Height list))
               = unat (Height item) + unat (sum_list (map Height list))"
    by (simp only: unat_add_lem)
  then show ?case by (simp add: tl)
qed

lemma length_le_sum_heights:
  "\<forall>item\<in>set list. Height item \<noteq> 0 \<Longrightarrow>
   length list \<le> sum_list (map (\<lambda>item. unat (Height item)) list)"
proof (induction list)
  case Nil
  then show ?case by simp
next
  case (Cons item list)
  then have "0 < unat (Height item)" by (simp add: unat_gt_0)
  with Cons show ?case by simp
qed

text \<open>Rows of positive height whose sum fits a \<^verbatim>\<open>uint\<close> have a positive average height.\<close>

lemma avg_height_pos:
  assumes ne: "list \<noteq> []"
    and pos: "\<forall>item\<in>set list. Height item \<noteq> 0"
    and fit: "sum_list (map (\<lambda>item. unat (Height item)) list) < 2 ^ 32"
  shows "0 < d_height (GetDropDownListDimension list) div word_of_nat (length list)"
proof -
  let ?s = "sum_list (map (\<lambda>item. unat (Height item)) list)"
  have nat: "unat (d_height (GetDropDownListDimension list)) = ?s"
    using fit by (simp add: natural_height unat_sum_heights)
  have len: "length list \<le> ?s"
    using pos by (rule length_le_sum_heights)
  then have "length list < 2 ^ LENGTH(32)"
    using fit by simp
  then have cnt: "unat (word_of_nat (length list) :: uint) = length list"
    by (simp add: unat_of_nat)
  have "0 < length list" using ne by simp
  then have "0 < ?s div length list"
    using len by (simp add: div_greater_zero_iff)
  then have "0 < unat (d_height (GetDropDownListDimension list) div word_of_nat (length list))"
    by (simp add: unat_div nat cnt)
  then show ?thesis
    by (simp add: word_less_nat_alt)
qed

subsection \<open>The number of rows shown\<close>

lemma rows_one:
  fixes a avg :: uint
  assumes "a < avg"
  shows "max (a div avg) 1 * avg = avg"
proof -
  have "unat (a div avg) = 0"
    using assms by (simp add: unat_div word_less_nat_alt)
  then have "a div avg = 0"
    by (simp add: unat_eq_zero)
  then show ?thesis by simp
qed

lemma rows_whole:
  fixes a avg :: uint
  assumes "avg \<noteq> 0" and "avg \<le> a"
  shows "max (a div avg) 1 = a div avg"
proof -
  have "0 < unat avg"
    using assms(1) by (simp add: unat_gt_0)
  moreover have "unat avg \<le> unat a"
    using assms(2) by (simp add: word_le_nat_alt)
  ultimately have "1 \<le> unat a div unat avg"
    by (simp add: Suc_le_eq div_greater_zero_iff)
  then have "1 \<le> a div avg"
    by (simp add: word_le_nat_alt unat_div)
  then show ?thesis
    by (simp add: max_def)
qed

lemma rows_fit:
  fixes a avg :: uint
  assumes "avg \<noteq> 0" and "avg \<le> a"
  shows "max (a div avg) 1 * avg \<le> a"
  by (simp add: rows_whole [OF assms] word_div_mult_le)

lemma rows_ge_avg:
  fixes a avg :: uint
  shows "avg \<le> max (a div avg) 1 * avg"
proof (cases "a < avg")
  case True
  then show ?thesis by (simp add: rows_one)
next
  case False
  show ?thesis
  proof (cases "avg = 0")
    case True
    then show ?thesis by simp
  next
    case nz: False
    have le: "avg \<le> a" using False by simp
    have m: "max (a div avg) 1 = a div avg"
      using nz le by (rule rows_whole)
    have "1 \<le> a div avg"
      using m by (simp add: max_def split: if_splits)
    then have one: "1 \<le> unat (a div avg)"
      by (simp add: word_le_nat_alt)
    have "unat (a div avg) * unat avg \<le> unat a"
      by (simp add: unat_div)
    also have "\<dots> < 2 ^ LENGTH(32)"
      by (rule unsigned_less)
    finally have "unat (a div avg) * unat avg < 2 ^ LENGTH(32)" .
    then have "unat (a div avg * avg) = unat (a div avg) * unat avg"
      by (simp only: unat_mult_lem)
    moreover have "unat avg \<le> unat (a div avg) * unat avg"
      using one by simp
    ultimately show ?thesis
      by (simp add: m word_le_nat_alt)
  qed
qed

lemma word_div_le_self:
  fixes a b :: uint
  shows "a div b \<le> a"
  by (simp add: word_le_nat_alt unat_div)

subsection \<open>The placement\<close>

lemmas placement_eval = ShowDropDownListAt_placement_def Let_def GetDropDownListDimension_def
  available_height_below_def available_height_above_def placement_finish_def Rect_Width_def

text \<open>
  The placement fails only where the list needs a scrollbar and the average row height,
  the natural height divided by the number of rows, is zero.
\<close>

lemma placement_Inr_iff:
  "(\<exists>p. ShowDropDownListAt_placement env w list wi_rect = Inr p) \<longleftrightarrow>
     \<not> (max (available_height_below env w wi_rect) (available_height_above env w wi_rect)
           < d_height (GetDropDownListDimension list)
        \<and> d_height (GetDropDownListDimension list) div word_of_nat (length list) = 0)"
  unfolding ShowDropDownListAt_placement_def Let_def
  by (auto simp: max_def)

lemma placement_props:
  assumes "ShowDropDownListAt_placement env w list wi_rect = Inr p"
  shows "pl_available_height p =
           (if pl_above p then available_height_above env w wi_rect
            else available_height_below env w wi_rect)"
    and "pl_available_height p < d_height (GetDropDownListDimension list) \<Longrightarrow>
           pl_scroll p \<and>
           d_height (pl_dim p) =
             max (pl_available_height p div
                   (d_height (GetDropDownListDimension list) div word_of_nat (length list))) 1
               * (d_height (GetDropDownListDimension list) div word_of_nat (length list))
           \<and> d_height (GetDropDownListDimension list) div word_of_nat (length list) \<noteq> 0"
    and "d_height (GetDropDownListDimension list) \<le> pl_available_height p \<Longrightarrow>
           \<not> pl_scroll p \<and> d_height (pl_dim p) = d_height (GetDropDownListDimension list)"
  using assms
  unfolding ShowDropDownListAt_placement_def Let_def placement_finish_def
  by (auto split: if_splits)

lemma placement_height_ge_avg:
  assumes "ShowDropDownListAt_placement env w list wi_rect = Inr p"
  shows "d_height (GetDropDownListDimension list) div word_of_nat (length list)
           \<le> d_height (pl_dim p)"
proof (cases "pl_available_height p < d_height (GetDropDownListDimension list)")
  case True
  from placement_props(2) [OF assms True] show ?thesis
    by (simp add: rows_ge_avg)
next
  case False
  then have "d_height (GetDropDownListDimension list) \<le> pl_available_height p"
    by simp
  from placement_props(3) [OF assms this] show ?thesis
    by (simp add: word_div_le_self)
qed

text \<open>
  Claim C1, as amended. Let the natural height be the sum of the row heights and the
  average row height the natural height divided by the number of rows. Whenever the
  placement of \<^verbatim>\<open>ShowDropDownListAt\<close> completes, the available height it ends with is the
  one of the side it chose. If the natural height exceeds it, the list gets a scrollbar,
  and its resolved height is at most the available height provided one average row fits
  there; where not even one average row fits, the resolved height is exactly one average
  row (so it exceeds the available height). If the natural height fits, there is no
  scrollbar and the resolved height is the natural height. The placement completes
  whenever the average row height is not zero.
\<close>

theorem C1_scrollbar_injection:
  fixes env w list wi_rect
  defines "natural \<equiv> d_height (GetDropDownListDimension list)"
  defines "avg \<equiv> natural div word_of_nat (length list)"
  shows "(\<forall>p. ShowDropDownListAt_placement env w list wi_rect = Inr p \<longrightarrow>
            pl_available_height p =
              (if pl_above p then available_height_above env w wi_rect
               else available_height_below env w wi_rect) \<and>
            (pl_available_height p < natural \<longrightarrow>
               pl_scroll p \<and>
               (avg \<le> pl_available_height p \<longrightarrow> d_height (pl_dim p) \<le> pl_available_height p) \<and>
               (pl_available_height p < avg \<longrightarrow> d_height (pl_dim p) = avg)) \<and>
            (natural \<le> pl_available_height p \<longrightarrow>
               \<not> pl_scroll p \<and> d_height (pl_dim p) = natural))
         \<and> (avg \<noteq> 0 \<longrightarrow> (\<exists>p. ShowDropDownListAt_placement env w list wi_rect = Inr p))"
  unfolding natural_def avg_def
proof (intro conjI allI impI)
  fix p
  assume p: "ShowDropDownListAt_placement env w list wi_rect = Inr p"
  let ?natural = "d_height (GetDropDownListDimension list)"
  let ?avg = "?natural div word_of_nat (length list)"
  show "pl_available_height p =
          (if pl_above p then available_height_above env w wi_rect
           else available_height_below env w wi_rect)"
    by (rule placement_props(1) [OF p])
  {
    assume less: "pl_available_height p < ?natural"
    note sc = placement_props(2) [OF p less]
    show "pl_scroll p" using sc by simp
    show "d_height (pl_dim p) \<le> pl_available_height p" if "?avg \<le> pl_available_height p"
      using sc that by (simp add: rows_fit)
    show "d_height (pl_dim p) = ?avg" if "pl_available_height p < ?avg"
      using sc that by (simp add: rows_one)
  }
  {
    assume fits: "?natural \<le> pl_available_height p"
    note ns = placement_props(3) [OF p fits]
    show "\<not> pl_scroll p" using ns by simp
    show "d_height (pl_dim p) = ?natural" using ns by simp
  }
next
  assume "d_height (GetDropDownListDimension list) div word_of_nat (length list) \<noteq> 0"
  then show "\<exists>p. ShowDropDownListAt_placement env w list wi_rect = Inr p"
    by (simp add: placement_Inr_iff)
qed

text \<open>
  Three rows of height 30 below the button: 90 pixels do not fit into 44, one average row
  does, and the list is cut to one row with a scrollbar.
\<close>

theorem C1_scrollbar_injection_witness:
  "ShowDropDownListAt_placement env0 w0 [row 0 30, row 1 30, row 2 30] (widget_rect w0 0)
     = Inr \<lparr>pl_top = 52, pl_width = 100, pl_dim = \<lparr>d_width = 100, d_height = 30\<rparr>,
            pl_scroll = True, pl_above = False, pl_available_height = 44,
            pl_dw_pos = \<lparr>pt_x = 10, pt_y = 52\<rparr>\<rparr>
   \<and> d_height (GetDropDownListDimension [row 0 30, row 1 30, row 2 30]) = 90
   \<and> available_height_below env0 w0 (widget_rect w0 0) = 44
   \<and> (30 :: uint) \<le> 44"
proof -
  let ?list = "[row 0 30, row 1 30, row 2 30]"
  let ?p = "\<lparr>pl_top = 52, pl_width = 100, pl_dim = \<lparr>d_width = 100, d_height = 30\<rparr>,
            pl_scroll = True, pl_above = False, pl_available_height = 44,
            pl_dw_pos = \<lparr>pt_x = 10, pt_y = 52\<rparr>\<rparr>"
  have e: "ShowDropDownListAt_placement env0 w0 ?list (widget_rect w0 0) = Inr ?p"
    by (simp add: placement_eval env0_def w0_def row_def)
  have n: "d_height (GetDropDownListDimension ?list) = 90"
    by (simp add: GetDropDownListDimension_def row_def)
  have less: "pl_available_height ?p < d_height (GetDropDownListDimension ?list)"
    by (simp add: n)
  have avg: "d_height (GetDropDownListDimension ?list) div word_of_nat (length ?list)
               \<le> pl_available_height ?p"
    by (simp add: n)
  from C1_scrollbar_injection [of env0 w0 ?list "widget_rect w0 0"] e less avg
  have "pl_available_height ?p = available_height_below env0 w0 (widget_rect w0 0)
        \<and> d_height (pl_dim ?p) \<le> pl_available_height ?p"
    by simp
  with e n show ?thesis by simp
qed

text \<open>
  Against claim C1 as it was stated: two rows of height 50 do not fit into the 44 pixels
  below the button (nor into the 36 above it); the list gets a scrollbar and a resolved
  height of one average row, 50, which is more than the available height.
\<close>

theorem C1_scrollbar_injection_counterexample:
  "ShowDropDownListAt_placement env0 w0 [row 0 50, row 1 50] (widget_rect w0 0)
     = Inr \<lparr>pl_top = 52, pl_width = 100, pl_dim = \<lparr>d_width = 100, d_height = 50\<rparr>,
            pl_scroll = True, pl_above = False, pl_available_height = 44,
            pl_dw_pos = \<lparr>pt_x = 10, pt_y = 52\<rparr>\<rparr>
   \<and> d_height (GetDropDownListDimension [row 0 50, row 1 50]) = 100
   \<and> (44 :: uint) < 100
   \<and> \<not> ((50 :: uint) \<le> 44)"
  by (simp add: placement_eval env0_def w0_def row_def)

subsection \<open>The row under the pointer\<close>

lemma loop_no_skip:
  "pos \<le> 0 \<Longrightarrow> GetDropDownItem_loop y pos list = GetDropDownItem_loop y 0 list"
proof (induction list arbitrary: y pos)
  case Nil
  then show ?case by simp
next
  case (Cons item rest)
  have "GetDropDownItem_loop y' (pos - 1) rest = GetDropDownItem_loop y' (0 - 1) rest" for y'
    using Cons.IH [of "pos - 1" y'] Cons.IH [of "0 - 1" y'] Cons.prems by simp
  with Cons.prems show ?case by (simp add: Let_def)
qed

lemma loop_skip:
  "GetDropDownItem_loop y pos list = GetDropDownItem_loop y 0 (drop (nat pos) list)"
proof (induction list arbitrary: pos)
  case Nil
  then show ?case by simp
next
  case (Cons item rest)
  show ?case
  proof (cases "pos \<le> 0")
    case True
    then have "nat pos = 0" by simp
    then show ?thesis
      using loop_no_skip [OF True, of y "item # rest"] by (simp only: drop_0)
  next
    case False
    then have "drop (nat pos) (item # rest) = drop (nat (pos - 1)) rest"
      by (simp add: drop_Cons' nat_diff_distrib)
    with False Cons.IH [of "pos - 1"] show ?thesis by simp
  qed
qed

lemma row_under_first:
  "row_under y 0 (item # rest) 0 \<longleftrightarrow> y < sint (Height item)"
  by (simp add: row_under_def band_end_def)

lemma band_end_Cons:
  "band_end (item # rest) 0 (Suc k) = sint (Height item) + band_end rest 0 k"
  by (simp add: band_end_def)

lemma row_under_later:
  "row_under y 0 (item # rest) (Suc k) \<longleftrightarrow>
     sint (Height item) \<le> y \<and> row_under (y - sint (Height item)) 0 rest k"
proof -
  let ?h = "sint (Height item)"
  have split: "(\<forall>j\<in>{0..<Suc k}. band_end (item # rest) 0 j \<le> y) \<longleftrightarrow>
        band_end (item # rest) 0 0 \<le> y \<and> (\<forall>j\<in>{0..<k}. band_end (item # rest) 0 (Suc j) \<le> y)"
    by (auto simp: less_Suc_eq_0_disj)
  have first: "band_end (item # rest) 0 0 = ?h"
    by (simp add: band_end_def)
  have shift: "(band_end (item # rest) 0 (Suc j) \<le> y) = (band_end rest 0 j \<le> y - ?h)" for j
    by (simp add: band_end_Cons) linarith
  have less: "(y < band_end (item # rest) 0 (Suc k)) = (y - ?h < band_end rest 0 k)"
    by (simp add: band_end_Cons) linarith
  show ?thesis
    unfolding row_under_def split first shift less
    by auto
qed

lemma loop_row_under:
  "row_under y 0 list k \<Longrightarrow>
   GetDropDownItem_loop y 0 list =
     (if masked (list ! k) \<or> \<not> Selectable (list ! k) then None else Some (result (list ! k)))"
proof (induction list arbitrary: y k)
  case Nil
  then show ?case by (simp add: row_under_def)
next
  case (Cons item rest)
  show ?case
  proof (cases k)
    case 0
    with Cons.prems show ?thesis
      by (simp add: row_under_first)
  next
    case (Suc k')
    with Cons.prems have ge: "sint (Height item) \<le> y"
      and r: "row_under (y - sint (Height item)) 0 rest k'"
      by (simp_all add: row_under_later)
    have "GetDropDownItem_loop y 0 (item # rest)
            = GetDropDownItem_loop (y - sint (Height item)) 0 rest"
      using ge by (simp add: Let_def loop_no_skip [of "- 1"])
    with Cons.IH [OF r] Suc show ?thesis by simp
  qed
qed


lemma row_under_drop:
  "row_under y n list k \<longleftrightarrow> n \<le> k \<and> row_under y 0 (drop n list) (k - n)"
proof (cases "n \<le> k")
  case False
  then show ?thesis by (simp add: row_under_def)
next
  case True
  have b: "band_end list n (n + j) = band_end (drop n list) 0 j" for j
    by (simp add: band_end_def)
  have "(\<forall>j\<in>{n..<k}. band_end list n j \<le> y) \<longleftrightarrow> (\<forall>j\<in>{0..<k - n}. band_end list n (n + j) \<le> y)"
  proof
    assume a: "\<forall>j\<in>{n..<k}. band_end list n j \<le> y"
    show "\<forall>j\<in>{0..<k - n}. band_end list n (n + j) \<le> y"
    proof
      fix j assume "j \<in> {0..<k - n}"
      then have "n + j \<in> {n..<k}" by auto
      with a show "band_end list n (n + j) \<le> y" by blast
    qed
  next
    assume a: "\<forall>j\<in>{0..<k - n}. band_end list n (n + j) \<le> y"
    show "\<forall>j\<in>{n..<k}. band_end list n j \<le> y"
    proof
      fix j assume j: "j \<in> {n..<k}"
      then have "j - n \<in> {0..<k - n}" by auto
      with a have "band_end list n (n + (j - n)) \<le> y" by blast
      with j show "band_end list n j \<le> y" by simp
    qed
  qed
  moreover have "band_end list n k = band_end (drop n list) 0 (k - n)"
    using b [of "k - n"] True by simp
  ultimately show ?thesis
    using True by (auto simp: row_under_def b)
qed

lemma loop_under:
  assumes "row_under y (nat pos) list k"
  shows "GetDropDownItem_loop y pos list =
     (if masked (list ! k) \<or> \<not> Selectable (list ! k) then None else Some (result (list ! k)))"
proof -
  from assms have le: "nat pos \<le> k" and r: "row_under y 0 (drop (nat pos) list) (k - nat pos)"
    using row_under_drop [of y "nat pos" list k] by simp_all
  from assms have "k < length list" by (simp add: row_under_def)
  with le have nth: "drop (nat pos) list ! (k - nat pos) = list ! k"
    by simp
  show ?thesis
    using loop_row_under [OF r] by (simp add: loop_skip [of y pos list] nth)
qed



lemma GetDropDownItem_cong:
  "vscroll d' = vscroll d \<Longrightarrow> dd_list d' = dd_list d \<Longrightarrow>
   GetDropDownItem env fr d' = GetDropDownItem env fr d"
  by (simp add: GetDropDownItem_def)

lemma sum_list_take_mono:
  fixes xs :: "int list"
  assumes "\<forall>x\<in>set xs. 0 \<le> x" and "m \<le> n"
  shows "sum_list (take m xs) \<le> sum_list (take n xs)"
proof -
  have "take n xs = take m xs @ take (n - m) (drop m xs)"
    using assms(2) by (metis le_add_diff_inverse take_add)
  moreover have "0 \<le> sum_list (take (n - m) (drop m xs))"
  proof (rule sum_list_nonneg)
    fix x assume "x \<in> set (take (n - m) (drop m xs))"
    then have "x \<in> set xs"
      by (meson in_set_dropD in_set_takeD)
    with assms(1) show "0 \<le> x" by blast
  qed
  ultimately show ?thesis by simp
qed



lemma in_band_row_under:
  assumes nonneg: "\<forall>item\<in>set list. 0 \<le> sint (Height item)"
    and band: "in_row_band y scroll_offset list k"
  shows "row_under y scroll_offset list k"
proof -
  let ?hs = "map (\<lambda>item. sint (Height item)) (drop scroll_offset list)"
  have hs: "\<forall>x\<in>set ?hs. 0 \<le> x"
    using nonneg by (auto dest: in_set_dropD)
  have "band_end list scroll_offset j \<le> y" if "j \<in> {scroll_offset..<k}" for j
  proof -
    from that have "Suc j - scroll_offset \<le> k - scroll_offset" by auto
    from sum_list_take_mono [OF hs this]
    have "band_end list scroll_offset j \<le> band_start list scroll_offset k"
      by (simp add: band_end_def band_start_def take_map)
    also have "\<dots> \<le> y"
      using band by (simp add: in_row_band_def)
    finally show ?thesis .
  qed
  with band show ?thesis
    by (simp add: row_under_def in_row_band_def)
qed

lemma loop_in_band:
  assumes "\<forall>item\<in>set list. 0 \<le> sint (Height item)"
    and "in_row_band y (nat pos) list k"
  shows "GetDropDownItem_loop y pos list =
     (if masked (list ! k) \<or> \<not> Selectable (list ! k) then None else Some (result (list ! k)))"
  using in_band_row_under [OF assms] by (rule loop_under)






subsection \<open>The event handlers\<close>

text \<open>The dropdown of the concrete inputs is the one \<^verbatim>\<open>ShowDropDownListAt\<close> opens.\<close>

lemma dropdown0_shown:
  "ShowDropDownListAt env0 w0 [row 100 10, row 101 20, row 102 5] 101 7 (widget_rect w0 7) 0 True
     = Inr dropdown0"
  by (simp add: ShowDropDownListAt_def placement_eval DropdownWindow_new_def list_height_loop_def
      SetCount_def SetCapacity_def Scrollbar_new_def Scrollbar_clamp_def Scrollbar_last_page_def
      env0_def w0_def row_def dropdown0_def)



lemma tick_fire:
  assumes "click_delay d = 1"
  shows "OnMouseLoop env fr d =
     (d\<lparr>click_delay := 0, dw_closed := True\<rparr>,
      [OnDropdownClose \<lparr>pt_x = pt_x (cursor_pos fr) - w_left (parent d),
                        pt_y = pt_y (cursor_pos fr) - w_top (parent d)\<rparr>
         (parent_button d) (selected_index d) (instant_close d),
       OnDropdownSelect (parent_button d) (selected_index d)])"
  using assms by (simp add: OnMouseLoop_def Close_def Let_def)

lemma tick_count:
  assumes "click_delay d \<noteq> 0" and "click_delay d \<noteq> 1"
  shows "OnMouseLoop env fr d = OnMouseLoop_drag env fr (d\<lparr>click_delay := click_delay d - 1\<rparr>)"
  using assms by (simp add: OnMouseLoop_def Let_def)

lemma tick_zero:
  assumes "click_delay d = 0"
  shows "OnMouseLoop env fr d = OnMouseLoop_drag env fr d"
  using assms by (simp add: OnMouseLoop_def)

lemma drag_idle:
  "\<not> drag_mode d \<Longrightarrow> OnMouseLoop_drag env fr d = (d, [])"
  by (simp add: OnMouseLoop_drag_def)

lemma mouse_loops_rest:
  "\<not> drag_mode d \<Longrightarrow> click_delay d = 0 \<Longrightarrow> mouse_loops env frs d = (d, [])"
  by (induction frs) (simp_all add: tick_zero drag_idle)

lemma countdown:
  assumes "\<not> drag_mode d" and "click_delay d = of_nat n" and "0 < n" and "n < 256"
  shows "mouse_loops env frs d =
     (if length frs < n then (d\<lparr>click_delay := of_nat (n - length frs)\<rparr>, [])
      else (d\<lparr>click_delay := 0, dw_closed := True\<rparr>,
            [OnDropdownClose \<lparr>pt_x = pt_x (cursor_pos (frs ! (n - 1))) - w_left (parent d),
                              pt_y = pt_y (cursor_pos (frs ! (n - 1))) - w_top (parent d)\<rparr>
               (parent_button d) (selected_index d) (instant_close d),
             OnDropdownSelect (parent_button d) (selected_index d)]))"
  using assms
proof (induction frs arbitrary: d n)
  case Nil
  then show ?case by simp
next
  case (Cons fr frs)
  show ?case
  proof (cases "n = 1")
    case True
    with Cons.prems have one: "click_delay d = 1" by simp
    have rest: "mouse_loops env frs (d\<lparr>click_delay := 0, dw_closed := True\<rparr>)
                  = (d\<lparr>click_delay := 0, dw_closed := True\<rparr>, [])"
      using Cons.prems(1) by (simp add: mouse_loops_rest)
    show ?thesis
      using True by (simp add: tick_fire [OF one] rest)
  next
    case False
    with Cons.prems have n: "1 < n" by simp
    have u: "unat (of_nat n :: byte) = n"
      using Cons.prems(4) by (simp add: unat_of_nat)
    have nz: "click_delay d \<noteq> 0"
      using Cons.prems(2) u n by (metis not_less_zero unat_0 zero_less_one less_trans)
    have no: "click_delay d \<noteq> 1"
      using Cons.prems(2) u n by (metis less_irrefl unat_1)
    have dec: "click_delay d - 1 = of_nat (n - 1)"
      using Cons.prems(2) n by simp
    let ?d = "d\<lparr>click_delay := click_delay d - 1\<rparr>"
    have step: "OnMouseLoop env fr d = (?d, [])"
      using Cons.prems(1) by (simp add: tick_count [OF nz no] drag_idle)
    have ih: "mouse_loops env frs ?d =
       (if length frs < n - 1 then (?d\<lparr>click_delay := of_nat (n - 1 - length frs)\<rparr>, [])
        else (?d\<lparr>click_delay := 0, dw_closed := True\<rparr>,
              [OnDropdownClose
                 \<lparr>pt_x = pt_x (cursor_pos (frs ! (n - 1 - 1))) - w_left (parent ?d),
                  pt_y = pt_y (cursor_pos (frs ! (n - 1 - 1))) - w_top (parent ?d)\<rparr>
                 (parent_button ?d) (selected_index ?d) (instant_close ?d),
               OnDropdownSelect (parent_button ?d) (selected_index ?d)]))"
      using Cons.prems n by (intro Cons.IH) (simp_all add: dec)
    have nth: "(fr # frs) ! (n - 1) = frs ! (n - 1 - 1)"
      using n by (simp add: nth_Cons')
    have lt: "(length frs < n - Suc 0) = (Suc (length frs) < n)"
      using n by auto
    show ?thesis
      using n by (simp add: step ih nth lt)
  qed
qed

subsection \<open>Focus, clicks and the close delay\<close>

text \<open>
  Claim C2, as amended. A dropdown that loses the focus while it is not already closing
  closes, and the close notification it sends to its parent carries the cursor relative
  to the parent, the button, the selected index and an \<^verbatim>\<open>instant_close\<close> flag forced to
  false. A dropdown that loses the focus because it is closing does nothing.
\<close>

theorem C2_focus_lost:
  "OnFocusLost fr False d =
     (d\<lparr>instant_close := False, dw_closed := True\<rparr>,
      [OnDropdownClose \<lparr>pt_x = pt_x (cursor_pos fr) - w_left (parent d),
                        pt_y = pt_y (cursor_pos fr) - w_top (parent d)\<rparr>
         (parent_button d) (selected_index d) False])
   \<and> OnFocusLost fr True d = (d, [])"
  by (simp add: OnFocusLost_def Close_def)

text \<open>
  Against claim C2 as it was stated: a dropdown opened with \<^verbatim>\<open>instant_close\<close> set loses the
  focus; the notification carries the flag false, not true.
\<close>

theorem C2_focus_lost_counterexample:
  "instant_close dropdown0
   \<and> snd (OnFocusLost (frame0 69 False 0) False dropdown0)
       = [OnDropdownClose \<lparr>pt_x = 20, pt_y = 69\<rparr> 7 101 False]
   \<and> snd (OnFocusLost (frame0 69 False 0) False dropdown0)
       \<noteq> [OnDropdownClose \<lparr>pt_x = 20, pt_y = 69\<rparr> 7 101 True]"
  by (simp add: OnFocusLost_def Close_def dropdown0_def frame0_def w0_def)

text \<open>The same dropdown, closed by the loss of focus.\<close>

theorem C2_focus_lost_witness:
  "OnFocusLost (frame0 69 False 0) False dropdown0 =
     (dropdown0\<lparr>instant_close := False, dw_closed := True\<rparr>,
      [OnDropdownClose \<lparr>pt_x = 20, pt_y = 69\<rparr> 7 101 False])"
  using C2_focus_lost [of "frame0 69 False 0" dropdown0]
  by (simp add: dropdown0_def frame0_def w0_def)



text \<open>
  Claim C5. Let a dropdown be no longer in drag mode, and let a click on the panel of the
  rows find row \<open>k\<close> under the pointer, unmasked and selectable. The click selects the
  result of that row and sets the close delay to 4, a constant. Over any number of mouse
  loops that follow, nothing is sent to the parent during the first three; the fourth
  closes the window and sends the close notification and then \<^verbatim>\<open>OnDropdownSelect\<close> with the
  button and the result of row \<open>k\<close>; later loops send nothing more, so the selection is
  reported once.
\<close>

theorem C5_close_delay:
  fixes env fr d k
  assumes idle: "\<not> drag_mode d"
    and inside: "0 \<le> GetWidgetFromPos fr"
    and under: "row_under (GetDropDownItem_y env fr) (nat (GetPosition (vscroll d))) (dd_list d) k"
    and unmasked: "\<not> masked (dd_list d ! k)" and selectable: "Selectable (dd_list d ! k)"
  defines "v \<equiv> result (dd_list d ! k)"
  defines "d1 \<equiv> OnClick env fr (WID_DM_ITEMS env) d"
  shows "click_delay d1 = 4 \<and> selected_index d1 = v \<and> \<not> drag_mode d1
     \<and> (\<forall>frs. mouse_loops env frs d1 =
          (if length frs < 4 then (d1\<lparr>click_delay := of_nat (4 - length frs)\<rparr>, [])
           else (d1\<lparr>click_delay := 0, dw_closed := True\<rparr>,
                 [OnDropdownClose \<lparr>pt_x = pt_x (cursor_pos (frs ! 3)) - w_left (parent d),
                                   pt_y = pt_y (cursor_pos (frs ! 3)) - w_top (parent d)\<rparr>
                    (parent_button d) v (instant_close d),
                  OnDropdownSelect (parent_button d) v])))"
proof -
  have hit: "GetDropDownItem env fr d = Some v"
    using inside loop_under [OF under] unmasked selectable
    by (simp add: GetDropDownItem_def v_def)
  have d1: "d1 = d\<lparr>click_delay := 4, selected_index := v, dw_dirty := True\<rparr>"
    by (simp add: d1_def OnClick_def hit)
  have a: "\<not> drag_mode d1" and b: "click_delay d1 = of_nat 4"
    using idle by (simp_all add: d1)
  have "mouse_loops env frs d1 =
          (if length frs < 4 then (d1\<lparr>click_delay := of_nat (4 - length frs)\<rparr>, [])
           else (d1\<lparr>click_delay := 0, dw_closed := True\<rparr>,
                 [OnDropdownClose \<lparr>pt_x = pt_x (cursor_pos (frs ! 3)) - w_left (parent d),
                                   pt_y = pt_y (cursor_pos (frs ! 3)) - w_top (parent d)\<rparr>
                    (parent_button d) v (instant_close d),
                  OnDropdownSelect (parent_button d) v]))" for frs
    using countdown [OF a b, of env frs] by (simp add: d1)
  then show ?thesis
    using idle by (simp add: d1)
qed

text \<open>A click on the third row: nothing after three loops, one selection after four or nine.\<close>

theorem C5_close_delay_witness:
  "GetDropDownItem_y env0 (frame0 86 False 0) = 32
   \<and> snd (mouse_loops env0 (replicate 3 (frame0 86 False 0))
            (OnClick env0 (frame0 86 False 0) 0 (dropdown0\<lparr>drag_mode := False\<rparr>))) = []
   \<and> snd (mouse_loops env0 (replicate 4 (frame0 86 False 0))
            (OnClick env0 (frame0 86 False 0) 0 (dropdown0\<lparr>drag_mode := False\<rparr>)))
        = [OnDropdownClose \<lparr>pt_x = 20, pt_y = 86\<rparr> 7 102 True, OnDropdownSelect 7 102]
   \<and> snd (mouse_loops env0 (replicate 9 (frame0 86 False 0))
            (OnClick env0 (frame0 86 False 0) 0 (dropdown0\<lparr>drag_mode := False\<rparr>)))
        = [OnDropdownClose \<lparr>pt_x = 20, pt_y = 86\<rparr> 7 102 True, OnDropdownSelect 7 102]"
proof -
  let ?fr = "frame0 86 False 0"
  let ?d = "dropdown0\<lparr>drag_mode := False\<rparr>"
  have idle: "\<not> drag_mode ?d" by simp
  have inside: "0 \<le> GetWidgetFromPos ?fr" by (simp add: frame0_def)
  have y: "GetDropDownItem_y env0 ?fr = 32"
    by (simp add: GetDropDownItem_y_def env0_def frame0_def)
  have two: "{0..<2::nat} = {0, 1}" by auto
  have under: "row_under (GetDropDownItem_y env0 ?fr) (nat (GetPosition (vscroll ?d))) (dd_list ?d) 2"
    by (simp add: y row_under_def band_end_def GetPosition_def dropdown0_def row_def two)
  have unmasked: "\<not> masked (dd_list ?d ! 2)" and selectable: "Selectable (dd_list ?d ! 2)"
    by (simp_all add: dropdown0_def row_def)
  have wid: "WID_DM_ITEMS env0 = 0" by (simp add: env0_def)
  have res: "result (dd_list ?d ! 2) = 102" by (simp add: dropdown0_def row_def)
  note c5 = C5_close_delay [OF idle inside under unmasked selectable, unfolded wid res,
      THEN conjunct2, THEN conjunct2, THEN conjunct2, rule_format]
  have "snd (mouse_loops env0 (replicate 3 ?fr) (OnClick env0 ?fr 0 ?d)) = []"
    by (simp add: c5)
  moreover have "snd (mouse_loops env0 (replicate 4 ?fr) (OnClick env0 ?fr 0 ?d))
        = [OnDropdownClose \<lparr>pt_x = 20, pt_y = 86\<rparr> 7 102 True, OnDropdownSelect 7 102]"
    by (simp add: c5) (simp add: frame0_def dropdown0_def w0_def)
  moreover have "snd (mouse_loops env0 (replicate 9 ?fr) (OnClick env0 ?fr 0 ?d))
        = [OnDropdownClose \<lparr>pt_x = 20, pt_y = 86\<rparr> 7 102 True, OnDropdownSelect 7 102]"
    by (simp add: c5) (simp add: frame0_def dropdown0_def w0_def)
  ultimately show ?thesis using y by simp
qed

lemma release_no_hit:
  assumes drag: "drag_mode d" and up: "\<not> left_button_clicked fr"
    and none: "GetDropDownItem env fr d = None" and inst: "instant_close d"
  shows "OnMouseLoop_drag env fr d = Close fr (d\<lparr>drag_mode := False\<rparr>)"
proof -
  have b: "GetDropDownItem env fr (d\<lparr>drag_mode := False\<rparr>) = None"
    using none GetDropDownItem_cong [of "d\<lparr>drag_mode := False\<rparr>" d env fr] by simp
  show ?thesis
    using drag up inst by (simp add: OnMouseLoop_drag_def Let_def b)
qed

text \<open>
  Claim C7. When the mouse loop finds the button released while the dropdown is in drag
  mode, no row under the pointer and \<^verbatim>\<open>instant_close\<close> set, the dropdown is closed by that
  very loop, its \<^verbatim>\<open>selected_index\<close> is unchanged and is the index the close notification
  reports (a close delay that runs out in the same loop adds \<^verbatim>\<open>OnDropdownSelect\<close> with the
  same index). For a dropdown fresh from its constructor the index reported is the
  preselection the caller gave.
\<close>

theorem C7_instant_close_no_hit:
  assumes drag: "drag_mode d" and up: "\<not> left_button_clicked fr"
    and none: "GetDropDownItem env fr d = None" and inst: "instant_close d"
  shows "dw_closed (fst (OnMouseLoop env fr d))
     \<and> selected_index (fst (OnMouseLoop env fr d)) = selected_index d
     \<and> snd (OnMouseLoop env fr d) =
         OnDropdownClose \<lparr>pt_x = pt_x (cursor_pos fr) - w_left (parent d),
                          pt_y = pt_y (cursor_pos fr) - w_top (parent d)\<rparr>
           (parent_button d) (selected_index d) True
         # (if click_delay d = 1 then [OnDropdownSelect (parent_button d) (selected_index d)]
            else [])
     \<and> (DropdownWindow_new env w list selected button inst0 pos dsize colour scroll = Inr d \<longrightarrow>
          snd (OnMouseLoop env fr d) =
            [OnDropdownClose \<lparr>pt_x = pt_x (cursor_pos fr) - w_left w,
                              pt_y = pt_y (cursor_pos fr) - w_top w\<rparr> button selected True])"
proof -
  have main: "OnMouseLoop env fr d =
      (d\<lparr>click_delay := (if click_delay d = 0 then 0 else click_delay d - 1),
         drag_mode := (click_delay d = 1), dw_closed := True\<rparr>,
       OnDropdownClose \<lparr>pt_x = pt_x (cursor_pos fr) - w_left (parent d),
                        pt_y = pt_y (cursor_pos fr) - w_top (parent d)\<rparr>
         (parent_button d) (selected_index d) True
       # (if click_delay d = 1 then [OnDropdownSelect (parent_button d) (selected_index d)]
          else []))"
  proof (cases "click_delay d = 0")
    case True
    then show ?thesis
      using release_no_hit [OF drag up none inst] inst drag
      by (simp add: tick_zero Close_def)
  next
    case nz: False
    show ?thesis
    proof (cases "click_delay d = 1")
      case True
      then show ?thesis
        using inst drag by (simp add: tick_fire)
    next
      case False
      let ?d = "d\<lparr>click_delay := click_delay d - 1\<rparr>"
      have n: "GetDropDownItem env fr ?d = None"
        using none GetDropDownItem_cong [of ?d d env fr] by simp
      have "OnMouseLoop_drag env fr ?d = Close fr (?d\<lparr>drag_mode := False\<rparr>)"
        using drag up inst by (intro release_no_hit n) simp_all
      then show ?thesis
        using nz False inst by (simp add: tick_count Close_def)
    qed
  qed
  have new: "snd (OnMouseLoop env fr d) =
            [OnDropdownClose \<lparr>pt_x = pt_x (cursor_pos fr) - w_left w,
                              pt_y = pt_y (cursor_pos fr) - w_top w\<rparr> button selected True]"
    if "DropdownWindow_new env w list selected button inst0 pos dsize colour scroll = Inr d"
  proof -
    from that have "parent d = w \<and> parent_button d = button \<and> selected_index d = selected
        \<and> click_delay d = 0"
      by (auto simp: DropdownWindow_new_def Let_def split: if_splits)
    then show ?thesis by (simp add: main)
  qed
  show ?thesis
    using new by (simp add: main)
qed

text \<open>The button is released with the cursor outside the window: row 101 stays selected.\<close>

theorem C7_instant_close_no_hit_witness:
  "GetDropDownItem env0 (frame0 10 False (- 1)) dropdown0 = None
   \<and> OnMouseLoop env0 (frame0 10 False (- 1)) dropdown0
       = (dropdown0\<lparr>drag_mode := False, dw_closed := True\<rparr>,
          [OnDropdownClose \<lparr>pt_x = 20, pt_y = 10\<rparr> 7 101 True])"
proof -
  let ?fr = "frame0 10 False (- 1)"
  have drag: "drag_mode dropdown0" and inst: "instant_close dropdown0"
    by (simp_all add: dropdown0_def)
  have up: "\<not> left_button_clicked ?fr" by (simp add: frame0_def)
  have none: "GetDropDownItem env0 ?fr dropdown0 = None"
    by (simp add: GetDropDownItem_def frame0_def)
  from C7_instant_close_no_hit [OF drag up none inst]
  have "dw_closed (fst (OnMouseLoop env0 ?fr dropdown0))
     \<and> selected_index (fst (OnMouseLoop env0 ?fr dropdown0)) = 101
     \<and> snd (OnMouseLoop env0 ?fr dropdown0) = [OnDropdownClose \<lparr>pt_x = 20, pt_y = 10\<rparr> 7 101 True]"
    by (simp add: dropdown0_def frame0_def w0_def)
  moreover have "fst (OnMouseLoop env0 ?fr dropdown0) = dropdown0\<lparr>drag_mode := False, dw_closed := True\<rparr>"
    by (simp add: OnMouseLoop_def OnMouseLoop_drag_def Close_def GetDropDownItem_def
        dropdown0_def frame0_def)
  ultimately show ?thesis
    using none by (simp add: prod_eq_iff)
qed

subsection \<open>Construction and the initial scroll offset\<close>

lemma new_Inr:
  assumes "list \<noteq> []" and "list_height_loop list \<noteq> 0"
  shows "\<exists>d. DropdownWindow_new env w list selected button inst pos dsize colour scroll = Inr d"
  using assms by (simp add: DropdownWindow_new_def Let_def)

lemma new_props:
  assumes "DropdownWindow_new env w list selected button inst pos dsize colour scroll = Inr d"
  shows "sb_pos (vscroll d) = 0" and "sb_count (vscroll d) = int (length list)"
    and "0 \<le> sb_cap (vscroll d)" and "list \<noteq> []" and "dd_list d = list"
    and "selected_index d = selected" and "drag_mode d" and "click_delay d = 0"
    and "instant_close d = inst"
    and "sb_cap (vscroll d) =
           uint ((ucast (d_height dsize) * word_of_nat (length list) :: size_t)
                   div scast (list_height_loop list))"
  using assms
  by (auto simp: DropdownWindow_new_def Let_def SetCount_def SetCapacity_def Scrollbar_new_def
      Scrollbar_clamp_def Scrollbar_last_page_def split: if_splits)

lemma last_page_bounds:
  assumes "0 \<le> sb_cap sb"
  shows "0 \<le> Scrollbar_last_page sb" and "Scrollbar_last_page sb \<le> max (sb_count sb) 0"
  using assms by (simp_all add: Scrollbar_last_page_def)

lemma UpdatePosition_INT_MAX:
  assumes "sb_pos sb = 0"
  shows "sb_pos (snd (UpdatePosition INT_MAX sb)) = min INT_MAX (Scrollbar_last_page sb)"
    and "sb_count (snd (UpdatePosition INT_MAX sb)) = sb_count sb"
    and "sb_cap (snd (UpdatePosition INT_MAX sb)) = sb_cap sb"
    and "Scrollbar_last_page (snd (UpdatePosition INT_MAX sb)) = Scrollbar_last_page sb"
  using assms
  by (simp_all add: UpdatePosition_def Let_def Scrollbar_clamp_def Scrollbar_last_page_def
      INT_MAX_def)

lemma fold_heights:
  "fold (\<lambda>item list_height. list_height + Height item) list a = a + sum_list (map Height list)"
  by (induction list arbitrary: a) (simp_all add: add.assoc)

lemma list_height_loop_natural:
  "list_height_loop list = d_height (GetDropDownListDimension list)"
  by (simp add: list_height_loop_def fold_heights natural_height)

lemma shown_Inr:
  assumes "ShowDropDownListAt env w list selected button wi_rect colour inst = Inr d"
  obtains p d0 where "ShowDropDownListAt_placement env w list wi_rect = Inr p"
    and "DropdownWindow_new env w list selected button inst (pl_dw_pos p) (pl_dim p) colour
           (pl_scroll p) = Inr d0"
    and "d = (if pl_above p \<and> pl_scroll p
              then d0\<lparr>vscroll := snd (UpdatePosition INT_MAX (vscroll d0))\<rparr> else d0)"
  using assms
  by (auto simp: ShowDropDownListAt_def split: sum.splits)

lemma new_size:
  assumes "DropdownWindow_new env w list selected button inst pos dsize colour scroll = Inr d"
  shows "list_height_loop list \<noteq> 0"
    and "d_height (items_minimal_size d) = d_height dsize + fullbevel_Vertical env * 2"
  using assms
  by (auto simp: DropdownWindow_new_def Let_def split: if_splits)

lemma placement_height_pos:
  assumes p: "ShowDropDownListAt_placement env w list wi_rect = Inr p"
    and nz: "d_height (GetDropDownListDimension list) \<noteq> 0"
  shows "0 < d_height (pl_dim p)"
proof (cases "pl_available_height p < d_height (GetDropDownListDimension list)")
  case True
  from placement_props(2) [OF p True]
  have "0 < d_height (GetDropDownListDimension list) div word_of_nat (length list)"
    by (simp add: word_neq_0_conv)
  also have "\<dots> \<le> d_height (pl_dim p)"
    using p by (rule placement_height_ge_avg)
  finally show ?thesis .
next
  case False
  then have "d_height (GetDropDownListDimension list) \<le> pl_available_height p"
    by simp
  from placement_props(3) [OF p this] nz show ?thesis
    by (simp add: word_neq_0_conv)
qed

lemma shown_Inr_iff:
  "(\<exists>d. ShowDropDownListAt env w list selected button wi_rect colour inst = Inr d) \<longleftrightarrow>
     list \<noteq> [] \<and> d_height (GetDropDownListDimension list) \<noteq> 0
     \<and> \<not> (max (available_height_below env w wi_rect) (available_height_above env w wi_rect)
              < d_height (GetDropDownListDimension list)
           \<and> d_height (GetDropDownListDimension list) div word_of_nat (length list) = 0)"
  (is "?l \<longleftrightarrow> ?r")
proof
  assume ?l
  then obtain d where d: "ShowDropDownListAt env w list selected button wi_rect colour inst = Inr d"
    by blast
  from d obtain p d0 where p: "ShowDropDownListAt_placement env w list wi_rect = Inr p"
    and d0: "DropdownWindow_new env w list selected button inst (pl_dw_pos p) (pl_dim p) colour
           (pl_scroll p) = Inr d0"
    by (rule shown_Inr)
  from p have "\<exists>p. ShowDropDownListAt_placement env w list wi_rect = Inr p" by blast
  with new_props(4) [OF d0] new_size(1) [OF d0] show ?r
    by (simp add: placement_Inr_iff list_height_loop_natural)
next
  assume r: ?r
  then obtain p where p: "ShowDropDownListAt_placement env w list wi_rect = Inr p"
    using placement_Inr_iff [of env w list wi_rect] by blast
  from r have "list \<noteq> []" and "list_height_loop list \<noteq> 0"
    by (simp_all add: list_height_loop_natural)
  from new_Inr [OF this] obtain d0 where
    "DropdownWindow_new env w list selected button inst (pl_dw_pos p) (pl_dim p) colour
       (pl_scroll p) = Inr d0"
    by blast
  then show ?l
    by (simp add: ShowDropDownListAt_def p)
qed

text \<open>
  Claim C3. Whenever the placement of \<^verbatim>\<open>ShowDropDownListAt\<close> completes, the resolved
  height is at least one average row height (the natural height divided by the number
  of rows), whatever height is available. Every window that \<^verbatim>\<open>ShowDropDownListAt\<close> opens has
  a list that is not empty and a resolved height that is positive and at least one
  average row height, and the panel of its rows is given that height plus the bevels: a
  popup of height zero is never made. The call opens a window exactly when the list is
  not empty, its natural height is not zero, and the list fits on one side or the
  average row height is not zero; this holds in particular for every list that is not
  empty, whose rows have a height that is not zero and whose heights add up within a
  \<^verbatim>\<open>uint\<close>, where the average row height is positive as well.
\<close>

theorem C3_minimum_one_row:
  fixes env w list wi_rect selected button colour inst
  defines "natural \<equiv> d_height (GetDropDownListDimension list)"
  defines "avg \<equiv> natural div word_of_nat (length list)"
  shows "(\<forall>p. ShowDropDownListAt_placement env w list wi_rect = Inr p \<longrightarrow>
              avg \<le> d_height (pl_dim p))
       \<and> (\<forall>d. ShowDropDownListAt env w list selected button wi_rect colour inst = Inr d \<longrightarrow>
              list \<noteq> []
              \<and> (\<exists>p. ShowDropDownListAt_placement env w list wi_rect = Inr p
                    \<and> avg \<le> d_height (pl_dim p) \<and> 0 < d_height (pl_dim p)
                    \<and> d_height (items_minimal_size d)
                        = d_height (pl_dim p) + fullbevel_Vertical env * 2))
       \<and> ((\<exists>d. ShowDropDownListAt env w list selected button wi_rect colour inst = Inr d) =
            (list \<noteq> [] \<and> natural \<noteq> 0
             \<and> \<not> (max (available_height_below env w wi_rect)
                        (available_height_above env w wi_rect) < natural
                   \<and> avg = 0)))
       \<and> (list \<noteq> [] \<and> (\<forall>item\<in>set list. Height item \<noteq> 0)
            \<and> sum_list (map (\<lambda>item. unat (Height item)) list) < 2 ^ 32 \<longrightarrow>
            (\<exists>p. ShowDropDownListAt_placement env w list wi_rect = Inr p
                 \<and> 0 < avg \<and> avg \<le> d_height (pl_dim p) \<and> 0 < d_height (pl_dim p))
            \<and> (\<exists>d. ShowDropDownListAt env w list selected button wi_rect colour inst = Inr d))"
  unfolding natural_def avg_def
proof (intro conjI allI impI)
  fix p
  assume "ShowDropDownListAt_placement env w list wi_rect = Inr p"
  then show "d_height (GetDropDownListDimension list) div word_of_nat (length list)
               \<le> d_height (pl_dim p)"
    by (rule placement_height_ge_avg)
next
  fix d
  assume d: "ShowDropDownListAt env w list selected button wi_rect colour inst = Inr d"
  from d obtain p d0 where p: "ShowDropDownListAt_placement env w list wi_rect = Inr p"
    and d0: "DropdownWindow_new env w list selected button inst (pl_dw_pos p) (pl_dim p) colour
           (pl_scroll p) = Inr d0"
    and dd: "d = (if pl_above p \<and> pl_scroll p
              then d0\<lparr>vscroll := snd (UpdatePosition INT_MAX (vscroll d0))\<rparr> else d0)"
    by (rule shown_Inr)
  show "list \<noteq> []"
    by (rule new_props(4) [OF d0])
  have nz: "d_height (GetDropDownListDimension list) \<noteq> 0"
    using new_size(1) [OF d0] by (simp add: list_height_loop_natural)
  have "d_height (items_minimal_size d) = d_height (pl_dim p) + fullbevel_Vertical env * 2"
    using new_size(2) [OF d0] by (simp add: dd)
  with p placement_height_ge_avg [OF p] placement_height_pos [OF p nz]
  show "\<exists>p. ShowDropDownListAt_placement env w list wi_rect = Inr p
          \<and> d_height (GetDropDownListDimension list) div word_of_nat (length list)
               \<le> d_height (pl_dim p)
          \<and> 0 < d_height (pl_dim p)
          \<and> d_height (items_minimal_size d) = d_height (pl_dim p) + fullbevel_Vertical env * 2"
    by blast
next
  show "(\<exists>d. ShowDropDownListAt env w list selected button wi_rect colour inst = Inr d) =
            (list \<noteq> [] \<and> d_height (GetDropDownListDimension list) \<noteq> 0
             \<and> \<not> (max (available_height_below env w wi_rect)
                        (available_height_above env w wi_rect)
                       < d_height (GetDropDownListDimension list)
                   \<and> d_height (GetDropDownListDimension list) div word_of_nat (length list)
                       = 0))"
    by (rule shown_Inr_iff)
next
  let ?natural = "d_height (GetDropDownListDimension list)"
  let ?avg = "?natural div word_of_nat (length list)"
  assume h: "list \<noteq> [] \<and> (\<forall>item\<in>set list. Height item \<noteq> 0)
            \<and> sum_list (map (\<lambda>item. unat (Height item)) list) < 2 ^ 32"
  then have pos: "0 < ?avg"
    by (simp add: avg_height_pos)
  then have az: "?avg \<noteq> 0" by simp
  then obtain p where p: "ShowDropDownListAt_placement env w list wi_rect = Inr p"
    using placement_Inr_iff [of env w list wi_rect] by blast
  have ge: "?avg \<le> d_height (pl_dim p)"
    using p by (rule placement_height_ge_avg)
  with pos have "0 < d_height (pl_dim p)"
    by (rule less_le_trans)
  with p pos ge
  show "\<exists>p. ShowDropDownListAt_placement env w list wi_rect = Inr p \<and> 0 < ?avg
            \<and> ?avg \<le> d_height (pl_dim p) \<and> 0 < d_height (pl_dim p)"
    by blast
  have "?avg \<le> ?natural"
    by (rule word_div_le_self)
  with pos have "?natural \<noteq> 0"
    by auto
  with h az show "\<exists>d. ShowDropDownListAt env w list selected button wi_rect colour inst = Inr d"
    by (simp add: shown_Inr_iff)
qed

text \<open>
  A main viewport that ends where the button ends and starts where it starts: no height
  is available on either side. Rows of the heights 10, 20 and 5 are cut to one average
  row of 11 pixels, and the window is opened with a panel of 15.
\<close>

theorem C3_minimum_one_row_witness:
  "available_height_below (env0\<lparr>GetMainViewTop := 40, GetMainViewBottom := 52\<rparr>) w0
       (widget_rect w0 7) = 0
   \<and> available_height_above (env0\<lparr>GetMainViewTop := 40, GetMainViewBottom := 52\<rparr>) w0
       (widget_rect w0 7) = 0
   \<and> ShowDropDownListAt_placement (env0\<lparr>GetMainViewTop := 40, GetMainViewBottom := 52\<rparr>) w0
       [row 0 10, row 1 20, row 2 5] (widget_rect w0 7)
     = Inr \<lparr>pl_top = 52, pl_width = 100, pl_dim = \<lparr>d_width = 100, d_height = 11\<rparr>,
            pl_scroll = True, pl_above = False, pl_available_height = 0,
            pl_dw_pos = \<lparr>pt_x = 10, pt_y = 52\<rparr>\<rparr>
   \<and> (\<exists>d. ShowDropDownListAt (env0\<lparr>GetMainViewTop := 40, GetMainViewBottom := 52\<rparr>) w0
             [row 0 10, row 1 20, row 2 5] 0 7 (widget_rect w0 7) 0 False = Inr d
          \<and> d_height (items_minimal_size d) = 15)
   \<and> d_height (GetDropDownListDimension [row 0 10, row 1 20, row 2 5]) div 3 = 11
   \<and> (0 :: uint) < 11"
proof -
  let ?env = "env0\<lparr>GetMainViewTop := 40, GetMainViewBottom := 52\<rparr>"
  let ?list = "[row 0 10, row 1 20, row 2 5]"
  let ?p = "\<lparr>pl_top = 52, pl_width = 100, pl_dim = \<lparr>d_width = 100, d_height = 11\<rparr>,
            pl_scroll = True, pl_above = False, pl_available_height = 0,
            pl_dw_pos = \<lparr>pt_x = 10, pt_y = 52\<rparr>\<rparr>"
  have b: "available_height_below ?env w0 (widget_rect w0 7) = 0"
    and a: "available_height_above ?env w0 (widget_rect w0 7) = 0"
    by (simp_all add: available_height_below_def available_height_above_def env0_def w0_def)
  have e: "ShowDropDownListAt_placement ?env w0 ?list (widget_rect w0 7) = Inr ?p"
    by (simp add: placement_eval env0_def w0_def row_def)
  have h: "?list \<noteq> [] \<and> (\<forall>item\<in>set ?list. Height item \<noteq> 0)
            \<and> sum_list (map (\<lambda>item. unat (Height item)) ?list) < 2 ^ 32"
    by (simp add: row_def)
  note c3 = C3_minimum_one_row [of ?env w0 ?list "widget_rect w0 7" 0 7 0 False]
  from c3 h obtain d where
    d: "ShowDropDownListAt ?env w0 ?list 0 7 (widget_rect w0 7) 0 False = Inr d"
    by blast
  with c3 obtain p where p: "ShowDropDownListAt_placement ?env w0 ?list (widget_rect w0 7) = Inr p"
    and pos: "0 < d_height (pl_dim p)"
    and g: "d_height (GetDropDownListDimension ?list) div word_of_nat (length ?list)
              \<le> d_height (pl_dim p)"
    and s: "d_height (items_minimal_size d) = d_height (pl_dim p) + fullbevel_Vertical ?env * 2"
    by blast
  from p e have "p = ?p" by simp
  with s have "d_height (items_minimal_size d) = 15"
    by (simp add: env0_def)
  with d have ex: "\<exists>d. ShowDropDownListAt ?env w0 ?list 0 7 (widget_rect w0 7) 0 False = Inr d
          \<and> d_height (items_minimal_size d) = 15"
    by blast
  have "d_height (GetDropDownListDimension ?list) div 3 = 11"
    by (simp add: GetDropDownListDimension_def row_def)
  with a b e ex show ?thesis by simp
qed

text \<open>
  Claim C6. Let the placement of \<^verbatim>\<open>ShowDropDownListAt\<close> complete for a list that is not
  empty and whose heights do not add up to zero. Then the window is opened, its scrollbar
  counts the rows of the list and has the capacity the constructor computes, and: when
  the list is placed above the button and has a scrollbar, the scroll offset right after
  the call is the maximal one, the last page (the update by \<^verbatim>\<open>INT_MAX\<close> reaches it for every
  list of at most \<^verbatim>\<open>INT_MAX\<close> rows); otherwise the scroll offset is zero.
\<close>

theorem C6_initial_scroll:
  assumes p: "ShowDropDownListAt_placement env w list wi_rect = Inr p"
    and ne: "list \<noteq> []" and h: "list_height_loop list \<noteq> 0"
  shows "\<exists>d. ShowDropDownListAt env w list selected button wi_rect colour inst = Inr d
     \<and> sb_count (vscroll d) = int (length list)
     \<and> sb_cap (vscroll d) =
           uint ((ucast (d_height (pl_dim p)) * word_of_nat (length list) :: size_t)
                   div scast (list_height_loop list))
     \<and> (pl_above p \<and> pl_scroll p \<longrightarrow>
          sb_pos (vscroll d) = min INT_MAX (Scrollbar_last_page (vscroll d))
          \<and> (int (length list) \<le> INT_MAX \<longrightarrow>
                sb_pos (vscroll d) = Scrollbar_last_page (vscroll d)))
     \<and> (\<not> (pl_above p \<and> pl_scroll p) \<longrightarrow> sb_pos (vscroll d) = 0)"
proof -
  from new_Inr [OF ne h] obtain d0 where
    d0: "DropdownWindow_new env w list selected button inst (pl_dw_pos p) (pl_dim p) colour
           (pl_scroll p) = Inr d0"
    by blast
  note n = new_props [OF d0]
  have shown: "ShowDropDownListAt env w list selected button wi_rect colour inst =
      Inr (if pl_above p \<and> pl_scroll p
           then d0\<lparr>vscroll := snd (UpdatePosition INT_MAX (vscroll d0))\<rparr> else d0)"
    by (simp only: ShowDropDownListAt_def p sum.case d0)
  show ?thesis
  proof (cases "pl_above p \<and> pl_scroll p")
    case False
    have "ShowDropDownListAt env w list selected button wi_rect colour inst = Inr d0"
      using False by (auto simp: shown)
    with False n(1,2,10) show ?thesis by auto
  next
    case True
    let ?d = "d0\<lparr>vscroll := snd (UpdatePosition INT_MAX (vscroll d0))\<rparr>"
    note u = UpdatePosition_INT_MAX [OF n(1)]
    have s: "ShowDropDownListAt env w list selected button wi_rect colour inst = Inr ?d"
      using True by (simp add: shown)
    have pos: "sb_pos (vscroll ?d) = min INT_MAX (Scrollbar_last_page (vscroll ?d))"
      by (simp add: u)
    have "Scrollbar_last_page (vscroll ?d) \<le> int (length list)"
      using last_page_bounds(2) [OF n(3)] by (simp add: u n(2))
    then have "sb_pos (vscroll ?d) = Scrollbar_last_page (vscroll ?d)"
      if "int (length list) \<le> INT_MAX"
      using that pos by simp
    with s pos True show ?thesis
      by (simp add: u n(2) n(10))
  qed
qed

text \<open>
  Five rows of height 10 with 4 pixels below the button and 36 above: the list is placed
  above, shows three rows and starts scrolled to the offset 2, the last page.
\<close>

theorem C6_initial_scroll_witness:
  "ShowDropDownListAt_placement (env0\<lparr>GetMainViewBottom := 60\<rparr>) w0
       [row 0 10, row 1 10, row 2 10, row 3 10, row 4 10] (widget_rect w0 7)
     = Inr \<lparr>pl_top = 6, pl_width = 100, pl_dim = \<lparr>d_width = 100, d_height = 30\<rparr>,
            pl_scroll = True, pl_above = True, pl_available_height = 36,
            pl_dw_pos = \<lparr>pt_x = 10, pt_y = 6\<rparr>\<rparr>
   \<and> (\<exists>d. ShowDropDownListAt (env0\<lparr>GetMainViewBottom := 60\<rparr>) w0
             [row 0 10, row 1 10, row 2 10, row 3 10, row 4 10] 0 7 (widget_rect w0 7) 0 False
           = Inr d
         \<and> vscroll d = \<lparr>sb_count = 5, sb_cap = 3, sb_pos = 2\<rparr>)"
proof -
  let ?env = "env0\<lparr>GetMainViewBottom := 60\<rparr>"
  let ?list = "[row 0 10, row 1 10, row 2 10, row 3 10, row 4 10]"
  let ?p = "\<lparr>pl_top = 6, pl_width = 100, pl_dim = \<lparr>d_width = 100, d_height = 30\<rparr>,
            pl_scroll = True, pl_above = True, pl_available_height = 36,
            pl_dw_pos = \<lparr>pt_x = 10, pt_y = 6\<rparr>\<rparr>"
  have p: "ShowDropDownListAt_placement ?env w0 ?list (widget_rect w0 7) = Inr ?p"
    by (simp add: placement_eval env0_def w0_def row_def)
  have ne: "?list \<noteq> []" by simp
  have h: "list_height_loop ?list \<noteq> 0"
    by (simp add: list_height_loop_def row_def)
  from C6_initial_scroll [OF p ne h, of 0 7 0 False]
  obtain d where d: "ShowDropDownListAt ?env w0 ?list 0 7 (widget_rect w0 7) 0 False = Inr d"
    and pos: "sb_pos (vscroll d) = Scrollbar_last_page (vscroll d)"
    and cnt: "sb_count (vscroll d) = 5"
    and c: "sb_cap (vscroll d) =
           uint ((ucast (d_height (pl_dim ?p)) * word_of_nat (length ?list) :: size_t)
                   div scast (list_height_loop ?list))"
    by (auto simp: INT_MAX_def)
  have cap: "sb_cap (vscroll d) = 3"
    by (simp add: c list_height_loop_def row_def)
  have "vscroll d = \<lparr>sb_count = 5, sb_cap = 3, sb_pos = 2\<rparr>"
    using pos cnt cap by (simp add: Scrollbar_last_page_def)
  with p d show ?thesis by blast
qed

text \<open>
  Claim C9. Constructing a \<^verbatim>\<open>DropdownWindow\<close> with an empty list fails the assertion of line
  148; the failure is not handled by \<^verbatim>\<open>ShowDropDownListAt\<close> or \<^verbatim>\<open>ShowDropDownList\<close>, which
  abort with it. For a list that is not empty the assertion holds: neither the constructor
  nor \<^verbatim>\<open>ShowDropDownListAt\<close> ends in an assertion failure, and the constructor returns the
  window with that list unless the heights add up to zero.
\<close>

theorem C9_empty_list_assertion:
  "DropdownWindow_new env w [] selected button inst pos dsize colour scroll = Inl AssertionFailed
   \<and> ShowDropDownListAt env w [] selected button wi_rect colour inst = Inl AssertionFailed
   \<and> ShowDropDownList env w [] selected button width inst = Inl AssertionFailed
   \<and> (list \<noteq> [] \<longrightarrow>
        DropdownWindow_new env w list selected button inst pos dsize colour scroll
          \<noteq> Inl AssertionFailed
        \<and> ShowDropDownListAt env w list selected button wi_rect colour inst
          \<noteq> Inl AssertionFailed)
   \<and> (list \<noteq> [] \<and> list_height_loop list \<noteq> 0 \<longrightarrow>
        (\<exists>d. DropdownWindow_new env w list selected button inst pos dsize colour scroll = Inr d
             \<and> dd_list d = list))"
proof (intro conjI impI)
  show "DropdownWindow_new env w [] selected button inst pos dsize colour scroll
          = Inl AssertionFailed"
    by (simp add: DropdownWindow_new_def)
  have b: "ShowDropDownListAt env w [] selected button wi_rect' colour' inst = Inl AssertionFailed"
    for wi_rect' colour'
    by (simp add: ShowDropDownListAt_def ShowDropDownListAt_placement_def Let_def
        GetDropDownListDimension_def DropdownWindow_new_def)
  show "ShowDropDownListAt env w [] selected button wi_rect colour inst = Inl AssertionFailed"
    by (rule b)
  show "ShowDropDownList env w [] selected button width inst = Inl AssertionFailed"
    by (simp add: ShowDropDownList_def Let_def b)
next
  assume ne: "list \<noteq> []"
  show "DropdownWindow_new env w list selected button inst pos dsize colour scroll
          \<noteq> Inl AssertionFailed"
    using ne by (simp add: DropdownWindow_new_def Let_def)
  have "DropdownWindow_new env w list selected button inst pos' dsize' colour scroll'
          \<noteq> Inl AssertionFailed" for pos' dsize' scroll'
    using ne by (simp add: DropdownWindow_new_def Let_def)
  moreover have "ShowDropDownListAt_placement env w list wi_rect \<noteq> Inl AssertionFailed"
    by (simp add: ShowDropDownListAt_placement_def Let_def)
  ultimately show "ShowDropDownListAt env w list selected button wi_rect colour inst
          \<noteq> Inl AssertionFailed"
    by (auto simp: ShowDropDownListAt_def split: sum.splits)
next
  assume "list \<noteq> [] \<and> list_height_loop list \<noteq> 0"
  then obtain d where
    d: "DropdownWindow_new env w list selected button inst pos dsize colour scroll = Inr d"
    using new_Inr [of list env w selected button inst pos dsize colour scroll] by blast
  with new_props(5) [OF d]
  show "\<exists>d. DropdownWindow_new env w list selected button inst pos dsize colour scroll = Inr d
             \<and> dd_list d = list"
    by blast
qed

text \<open>The empty list aborts; the list of the concrete inputs opens a dropdown.\<close>

theorem C9_empty_list_assertion_witness:
  "ShowDropDownListAt env0 w0 [] 0 7 (widget_rect w0 7) 0 False = Inl AssertionFailed
   \<and> ShowDropDownListAt env0 w0 [row 100 10, row 101 20, row 102 5] 101 7 (widget_rect w0 7) 0 True
       = Inr dropdown0
   \<and> Inr dropdown0 \<noteq> (Inl AssertionFailed :: error + DropdownWindow)"
proof -
  let ?list = "[row 100 10, row 101 20, row 102 5]"
  have ne: "?list \<noteq> []" by simp
  from C9_empty_list_assertion [of env0 w0 0 7 False _ _ 0 _ "widget_rect w0 7" _ ?list] ne
  have "ShowDropDownListAt env0 w0 [] 0 7 (widget_rect w0 7) 0 False = Inl AssertionFailed"
    by blast
  then show ?thesis
    by (simp add: dropdown0_shown)
qed

subsection \<open>The menu builder\<close>

lemma filter_upt_Suc:
  "filter P [0..<Suc n] = (if P 0 then [0] else []) @ map Suc (filter (\<lambda>j. P (Suc j)) [0..<n])"
proof -
  have "[0..<Suc n] = 0 # map Suc [0..<n]"
    by (simp add: upt_conv_Cons map_Suc_upt del: upt_Suc)
  then show ?thesis
    by (simp add: filter_map comp_def del: upt_Suc)
qed

lemma menu_loop_built:
  assumes "INVALID_STRING_ID env \<notin> set entries"
  shows "ShowDropDownMenu_loop env disabled_mask hidden_mask
           (entries @ INVALID_STRING_ID env # rest) i acc =
         Inr (acc @ map (\<lambda>j. DropDownListStringItem env (entries ! j) (sint (i + word_of_nat j))
                               (HasBit disabled_mask (i + word_of_nat j)))
                      (filter (\<lambda>j. \<not> HasBit hidden_mask (i + word_of_nat j)) [0..<length entries]))"
  using assms
proof (induction entries arbitrary: i acc)
  case Nil
  then show ?case by simp
next
  case (Cons s entries)
  from Cons.prems have s: "s \<noteq> INVALID_STRING_ID env"
    and rest: "INVALID_STRING_ID env \<notin> set entries"
    by auto
  have shift: "i + 1 + word_of_nat j = i + word_of_nat (Suc j)" for j
    by simp
  show ?case
    using s
    by (simp add: Cons.IH [OF rest] filter_upt_Suc [of _ "length entries"] shift comp_def
        del: upt_Suc of_nat_Suc)
qed

lemma HasBit_index:
  assumes "j < 2 ^ 32"
  shows "HasBit m (word_of_nat j) = bit m j"
  using assms by (simp add: HasBit_def unat_of_nat)

lemma sint_index:
  assumes "j < 2 ^ 31"
  shows "sint (word_of_nat j :: uint) = int j"
proof -
  have "int j < 2 ^ 31"
    using assms by (metis of_nat_less_iff of_nat_numeral of_nat_power)
  moreover have "- (2 ^ 31) \<le> int j"
    by simp
  ultimately have "signed_take_bit 31 (int j) = int j"
    by (simp only: signed_take_bit_int_eq_self)
  then show ?thesis
    by (simp add: signed_of_nat)
qed

lemma menu_built:
  assumes "strings = entries @ INVALID_STRING_ID env # rest"
    and "INVALID_STRING_ID env \<notin> set entries"
  shows "ShowDropDownMenu_loop env disabled_mask hidden_mask strings 0 [] =
         Inr (map (\<lambda>j. DropDownListStringItem env (entries ! j) (sint (word_of_nat j :: uint))
                          (HasBit disabled_mask (word_of_nat j)))
                 (filter (\<lambda>j. \<not> HasBit hidden_mask (word_of_nat j)) [0..<length entries]))"
  using menu_loop_built [OF assms(2), of disabled_mask hidden_mask rest 0 "[]"]
  by (simp add: assms(1))

lemma menu_built_index:
  assumes "length entries \<le> 32"
  shows "map (\<lambda>j. DropDownListStringItem env (entries ! j) (sint (word_of_nat j :: uint))
                          (HasBit disabled_mask (word_of_nat j)))
           (filter (\<lambda>j. \<not> HasBit hidden_mask (word_of_nat j)) [0..<length entries])
       = map (\<lambda>j. DropDownListStringItem env (entries ! j) (int j) (bit disabled_mask j))
           (filter (\<lambda>j. \<not> bit hidden_mask j) [0..<length entries])"
proof -
  have small: "j < 2 ^ 31" if "j \<in> set [0..<length entries]" for j
    using that assms by simp
  have f: "filter (\<lambda>j. \<not> HasBit hidden_mask (word_of_nat j)) [0..<length entries]
         = filter (\<lambda>j. \<not> bit hidden_mask j) [0..<length entries]"
  proof (rule filter_cong [OF refl])
    fix j assume "j \<in> set [0..<length entries]"
    then have "j < 2 ^ 32" using small [of j] by simp
    then show "(\<not> HasBit hidden_mask (word_of_nat j)) = (\<not> bit hidden_mask j)"
      by (simp add: HasBit_index)
  qed
  show ?thesis
    unfolding f
  proof (rule map_cong [OF refl])
    fix j assume "j \<in> set (filter (\<lambda>j. \<not> bit hidden_mask j) [0..<length entries])"
    then have j: "j < 2 ^ 31" using small [of j] by simp
    then have "j < 2 ^ 32" by simp
    with j show "DropDownListStringItem env (entries ! j) (sint (word_of_nat j :: uint))
                   (HasBit disabled_mask (word_of_nat j))
               = DropDownListStringItem env (entries ! j) (int j) (bit disabled_mask j)"
      by (simp add: HasBit_index sint_index)
  qed
qed

text \<open>
  Claim C8. Let the array given to \<^verbatim>\<open>ShowDropDownMenu\<close> hold the entries \<open>entries\<close> and then
  the terminator. The list built has one string item for every entry whose bit is not set
  in the hidden mask, in the order of the array; the item of entry \<open>j\<close> has the string of
  that entry, is masked exactly when bit \<open>j\<close> of the disabled mask is set, and has the
  result \<open>j\<close>, the index in the array and not the position in the list built. This list
  is what \<^verbatim>\<open>ShowDropDownMenu\<close> hands to \<^verbatim>\<open>ShowDropDownList\<close>. The masks have 32 bits; the
  statement in terms of the bits and the index is for arrays of at most 32 entries, the
  one in terms of \<^verbatim>\<open>HasBit\<close> and the loop counter for every array.
\<close>

theorem C8_menu_builder:
  fixes env w strings entries rest selected button disabled_mask hidden_mask width
  assumes arr: "strings = entries @ INVALID_STRING_ID env # rest"
    and ents: "INVALID_STRING_ID env \<notin> set entries"
  defines "built \<equiv>
     map (\<lambda>j. DropDownListStringItem env (entries ! j) (sint (word_of_nat j :: uint))
                (HasBit disabled_mask (word_of_nat j)))
       (filter (\<lambda>j. \<not> HasBit hidden_mask (word_of_nat j)) [0..<length entries])"
  shows "ShowDropDownMenu_loop env disabled_mask hidden_mask strings 0 [] = Inr built
     \<and> ShowDropDownMenu env w strings selected button disabled_mask hidden_mask width =
         (if built \<noteq> []
          then (case ShowDropDownList env w built selected button width
                       (default_instant_close env) of
                  Inl e \<Rightarrow> Inl e | Inr dropdown \<Rightarrow> Inr (Some dropdown))
          else Inr None)
     \<and> (length entries \<le> 32 \<longrightarrow>
          built = map (\<lambda>j. DropDownListStringItem env (entries ! j) (int j) (bit disabled_mask j))
                    (filter (\<lambda>j. \<not> bit hidden_mask j) [0..<length entries])
          \<and> map result built = map int (filter (\<lambda>j. \<not> bit hidden_mask j) [0..<length entries])
          \<and> map masked built
              = map (bit disabled_mask) (filter (\<lambda>j. \<not> bit hidden_mask j) [0..<length entries]))"
proof -
  have b: "ShowDropDownMenu_loop env disabled_mask hidden_mask strings 0 [] = Inr built"
    unfolding built_def using arr ents by (rule menu_built)
  have m: "ShowDropDownMenu env w strings selected button disabled_mask hidden_mask width =
         (if built \<noteq> []
          then (case ShowDropDownList env w built selected button width
                       (default_instant_close env) of
                  Inl e \<Rightarrow> Inl e | Inr dropdown \<Rightarrow> Inr (Some dropdown))
          else Inr None)"
    by (simp only: ShowDropDownMenu_def b sum.case)
  have i: "built = map (\<lambda>j. DropDownListStringItem env (entries ! j) (int j) (bit disabled_mask j))
                    (filter (\<lambda>j. \<not> bit hidden_mask j) [0..<length entries])"
    if "length entries \<le> 32"
    unfolding built_def using that by (rule menu_built_index)
  have r: "map result built = map int (filter (\<lambda>j. \<not> bit hidden_mask j) [0..<length entries])"
    and k: "map masked built
              = map (bit disabled_mask) (filter (\<lambda>j. \<not> bit hidden_mask j) [0..<length entries])"
    if "length entries \<le> 32"
    by (simp_all add: i [OF that] DropDownListStringItem_def comp_def)
  from b m i r k show ?thesis by blast
qed

text \<open>
  Three entries, the second hidden and the third disabled: the list built has the first
  entry with the result 0 and the third, masked, with the result 2.
\<close>

theorem C8_menu_builder_witness:
  "ShowDropDownMenu_loop env0 4 2 [10, 11, 12, 65535] 0 []
     = Inr [DropDownListStringItem env0 10 0 False, DropDownListStringItem env0 12 2 True]
   \<and> map result [DropDownListStringItem env0 10 0 False, DropDownListStringItem env0 12 2 True]
       = [0, 2]
   \<and> map masked [DropDownListStringItem env0 10 0 False, DropDownListStringItem env0 12 2 True]
       = [False, True]"
proof -
  have arr: "[10, 11, 12, 65535] = [10, 11, 12] @ INVALID_STRING_ID env0 # []"
    by (simp add: env0_def)
  have ents: "INVALID_STRING_ID env0 \<notin> set [10, 11, 12]"
    by (simp add: env0_def)
  have len: "length [10 :: StringID, 11, 12] \<le> 32"
    by simp
  have idx: "[0..<length [10 :: StringID, 11, 12]] = [0, 1, 2]"
    by (simp add: upt_rec)
  from C8_menu_builder [OF arr ents, of 4 2] len
  have "ShowDropDownMenu_loop env0 4 2 [10, 11, 12, 65535] 0 []
     = Inr (map (\<lambda>j. DropDownListStringItem env0 ([10, 11, 12] ! j) (int j) (bit (4 :: uint) j))
                    (filter (\<lambda>j. \<not> bit (2 :: uint) j) [0..<length [10 :: StringID, 11, 12]]))"
    by simp
  then have "ShowDropDownMenu_loop env0 4 2 [10, 11, 12, 65535] 0 []
     = Inr [DropDownListStringItem env0 10 0 False, DropDownListStringItem env0 12 2 True]"
    unfolding idx by (simp add: bit_numeral_Bit0_Suc_iff bit_numeral_simps)
  then show ?thesis
    by (simp add: DropDownListStringItem_def)
qed

text \<open>
  Claim C10. When every entry of the array has its bit set in the hidden mask, the list
  built is empty and \<^verbatim>\<open>ShowDropDownMenu\<close> returns without constructing a window: the
  assertion of the constructor is not reached.
\<close>

theorem C10_all_hidden:
  assumes arr: "strings = entries @ INVALID_STRING_ID env # rest"
    and ents: "INVALID_STRING_ID env \<notin> set entries"
    and hidden: "\<forall>j<length entries. HasBit hidden_mask (word_of_nat j)"
  shows "ShowDropDownMenu_loop env disabled_mask hidden_mask strings 0 [] = Inr []
     \<and> ShowDropDownMenu env w strings selected button disabled_mask hidden_mask width = Inr None"
proof -
  have "filter (\<lambda>j. \<not> HasBit hidden_mask (word_of_nat j)) [0..<length entries] = []"
    using hidden by (simp add: filter_empty_conv)
  then have b: "ShowDropDownMenu_loop env disabled_mask hidden_mask strings 0 [] = Inr []"
    using menu_built [OF arr ents, of disabled_mask hidden_mask] by simp
  then show ?thesis
    by (simp add: ShowDropDownMenu_def)
qed

text \<open>Two entries, both hidden.\<close>

theorem C10_all_hidden_witness:
  "ShowDropDownMenu env0 w0 [10, 11, 65535] 0 7 0 3 0 = Inr None
   \<and> ShowDropDownMenu_loop env0 0 3 [10, 11, 65535] 0 [] = Inr []"
proof -
  have arr: "[10, 11, 65535] = [10, 11] @ INVALID_STRING_ID env0 # []"
    by (simp add: env0_def)
  have ents: "INVALID_STRING_ID env0 \<notin> set [10, 11]"
    by (simp add: env0_def)
  have h0: "HasBit 3 (word_of_nat 0)" and h1: "HasBit 3 (word_of_nat 1)"
    by (simp_all add: HasBit_def)
  have hidden: "\<forall>j<length [10 :: StringID, 11]. HasBit 3 (word_of_nat j)"
  proof (intro allI impI)
    fix j :: nat assume "j < length [10 :: StringID, 11]"
    then have "j = 0 \<or> j = 1" by auto
    with h0 h1 show "HasBit 3 (word_of_nat j)" by blast
  qed
  from C10_all_hidden [OF arr ents hidden, of 0 w0 0 7 0]
  show ?thesis by simp
qed

end
